theory Spec2Isabelle
  imports Complex_Main "HOL-Library.Word"
begin

unbundle bit_operations_syntax

section \<open>Machine types\<close>

text \<open>
  The C++ type \<^verbatim>\<open>int\<close> is a 32-bit two's complement integer: a \<open>32 word\<close> read through
  \<open>sint\<close>, whose \<open>+\<close>, \<open>-\<close>, \<open>*\<close> and \<open>push_bit\<close> wrap around modulo \<open>2 ^ 32\<close>, which is what
  the lattice hash relies on. \<^verbatim>\<open>uint32_t\<close> is the same word read through \<open>unat\<close>.

  \<^verbatim>\<open>float\<close> and \<^verbatim>\<open>double\<close> are idealised as exact real numbers: rounding is outside the
  model, and so are infinities and NaN, with one exception. In the noise functions a finite
  argument can drive one product beyond the range of \<^verbatim>\<open>float\<close>; the value of the function is
  then NaN, which the model returns as the error \<open>NotANumber\<close>. An index outside a
  \<^verbatim>\<open>std::vector\<close> is the error \<open>IndexOutOfBounds\<close>.
\<close>

type_synonym int32 = "32 word"
type_synonym uint32 = "32 word"
type_synonym float = real
type_synonym double = real

datatype error = IndexOutOfBounds | NotANumber

text \<open>\<^verbatim>\<open>(float)n\<close> for an \<^verbatim>\<open>int n\<close>.\<close>

definition int_to_float :: "int32 \<Rightarrow> float" where
  "int_to_float n = real_of_int (sint n)"

text \<open>
  \<^verbatim>\<open>static_cast<int>(f)\<close> truncates towards zero. When the truncated value is not an
  \<^verbatim>\<open>int\<close>, the language leaves the result undefined and the source does not check: the
  compiled conversion yields some \<^verbatim>\<open>int\<close> and the program goes on. Which \<^verbatim>\<open>int\<close> is the
  platform's choice, the parameter \<open>cv\<close> of every function that converts: \<^verbatim>\<open>INT_MIN\<close> on
  x86-64, the nearest \<^verbatim>\<open>int\<close> on arm64.
\<close>

definition float_to_int :: "(float \<Rightarrow> int32) \<Rightarrow> float \<Rightarrow> int32" where
  "float_to_int cv f =
     (let t = (if 0 \<le> f then \<lfloor>f\<rfloor> else \<lceil>f\<rceil>)
      in if - 2147483648 \<le> t \<and> t \<le> 2147483647 then word_of_int t else cv f)"

definition convert_x86_64 :: "float \<Rightarrow> int32" where
  "convert_x86_64 f = - 2147483648"

definition convert_arm64 :: "float \<Rightarrow> int32" where
  "convert_arm64 f = (if f < 0 then - 2147483648 else 2147483647)"

text \<open>
  A \<^verbatim>\<open>float\<close> operation whose exact result \<open>v\<close> reaches \<open>2 ^ 128 - 2 ^ 103\<close> in magnitude,
  half a unit in the last place above the largest \<^verbatim>\<open>float\<close>, yields an infinity.
\<close>

definition float_overflows :: "real \<Rightarrow> bool" where
  "float_overflows v = (2 ^ 128 - 2 ^ 103 \<le> \<bar>v\<bar>)"

text \<open>\<^verbatim>\<open>(uint32_t)i\<close> for an \<^verbatim>\<open>int i\<close>: the value modulo \<open>2 ^ 32\<close>.\<close>

definition int_to_uint32 :: "int32 \<Rightarrow> uint32" where
  "int_to_uint32 i = word_of_int (sint i)"

definition floorf :: "float \<Rightarrow> float" where
  "floorf x = real_of_int \<lfloor>x\<rfloor>"

definition cosf :: "float \<Rightarrow> float" where
  "cosf x = cos x"

definition sinf :: "float \<Rightarrow> float" where
  "sinf x = sin x"

definition tanf :: "float \<Rightarrow> float" where
  "tanf x = tan x"

text \<open>
  \<^verbatim>\<open>v[i]\<close> on a \<^verbatim>\<open>std::vector\<close> with an \<^verbatim>\<open>int\<close> index: the index is converted to
  \<^verbatim>\<open>size_t\<close>, so a negative one is out of bounds like one beyond the size.
\<close>

definition vec_at :: "'a list \<Rightarrow> int32 \<Rightarrow> error + 'a" where
  "vec_at xs i =
     (if 0 \<le> sint i \<and> nat (sint i) < length xs then Inr (xs ! nat (sint i))
      else Inl IndexOutOfBounds)"

definition vec_update :: "'a list \<Rightarrow> int32 \<Rightarrow> ('a \<Rightarrow> 'a) \<Rightarrow> error + 'a list" where
  "vec_update xs i f =
     (if 0 \<le> sint i \<and> nat (sint i) < length xs
      then Inr (xs[nat (sint i) := f (xs ! nat (sint i))])
      else Inl IndexOutOfBounds)"

text \<open>
  The values of \<^verbatim>\<open>i\<close> in \<^verbatim>\<open>for (int i = 0; i < n; ++i)\<close>. The increment never overflows,
  since \<^verbatim>\<open>i < n\<close> holds before it. The body of a loop may fail; the loop stops at the first
  failure.
\<close>

definition loop_range :: "int32 \<Rightarrow> int32 list" where
  "loop_range n = map of_nat [0..<nat (sint n)]"

primrec for_each :: "'a list \<Rightarrow> ('a \<Rightarrow> 's \<Rightarrow> error + 's) \<Rightarrow> 's \<Rightarrow> error + 's" where
  "for_each [] body s = Inr s"
| "for_each (a # as) body s =
     (case body a s of Inl e \<Rightarrow> Inl e | Inr s' \<Rightarrow> for_each as body s')"

section \<open>The vector library\<close>

text \<open>
  \<^verbatim>\<open>simd::float3\<close>, \<^verbatim>\<open>simd::float4\<close> and \<^verbatim>\<open>simd::float4x4\<close> (four columns) with the
  operations of the platform's vector library that the program calls, in their mathematical
  meaning. \<^verbatim>\<open>simd::normalize\<close> divides by the length; on the zero vector the library yields
  NaN components, the model (where \<open>x / 0 = 0\<close>) the zero vector.
\<close>

datatype float3 = Float3 (fx: float) (fy: float) (fz: float)

datatype float4 = Float4 float float float float

datatype float4x4 = Float4x4 float4 float4 float4 float4

definition add3 :: "float3 \<Rightarrow> float3 \<Rightarrow> float3" where
  "add3 a b = Float3 (fx a + fx b) (fy a + fy b) (fz a + fz b)"

definition sub3 :: "float3 \<Rightarrow> float3 \<Rightarrow> float3" where
  "sub3 a b = Float3 (fx a - fx b) (fy a - fy b) (fz a - fz b)"

definition scale3 :: "float3 \<Rightarrow> float \<Rightarrow> float3" where
  "scale3 a k = Float3 (fx a * k) (fy a * k) (fz a * k)"

definition simd_dot :: "float3 \<Rightarrow> float3 \<Rightarrow> float" where
  "simd_dot a b = fx a * fx b + fy a * fy b + fz a * fz b"

definition simd_cross :: "float3 \<Rightarrow> float3 \<Rightarrow> float3" where
  "simd_cross a b =
     Float3 (fy a * fz b - fz a * fy b) (fz a * fx b - fx a * fz b) (fx a * fy b - fy a * fx b)"

definition simd_length :: "float3 \<Rightarrow> float" where
  "simd_length a = sqrt (simd_dot a a)"

definition simd_normalize :: "float3 \<Rightarrow> float3" where
  "simd_normalize a = scale3 a (1 / simd_length a)"

definition clampf :: "float \<Rightarrow> float \<Rightarrow> float \<Rightarrow> float" where
  "clampf x lo hi = min (max x lo) hi"

definition simd_clamp :: "float3 \<Rightarrow> float3 \<Rightarrow> float3 \<Rightarrow> float3" where
  "simd_clamp a lo hi =
     Float3 (clampf (fx a) (fx lo) (fx hi)) (clampf (fy a) (fy lo) (fy hi))
       (clampf (fz a) (fz lo) (fz hi))"

section \<open>Matrix utilities (camera.hpp)\<close>

definition matrix_perspective_right_hand :: "float \<Rightarrow> float \<Rightarrow> float \<Rightarrow> float \<Rightarrow> float4x4" where
  "matrix_perspective_right_hand fovyRadians aspect nearZ farZ =
     (let ys = 1 / tanf (fovyRadians * 0.5);
          xs = ys / aspect;
          zs = farZ / (nearZ - farZ)
      in Float4x4 (Float4 xs 0 0 0) (Float4 0 ys 0 0) (Float4 0 0 zs (- 1))
           (Float4 0 0 (zs * nearZ) 0))"

definition matrix_look_at_right_hand :: "float3 \<Rightarrow> float3 \<Rightarrow> float3 \<Rightarrow> float4x4" where
  "matrix_look_at_right_hand eye center up =
     (let f = simd_normalize (sub3 center eye);
          s = simd_normalize (simd_cross f up);
          u = simd_cross s f
      in Float4x4 (Float4 (fx s) (fx u) (- fx f) 0) (Float4 (fy s) (fy u) (- fy f) 0)
           (Float4 (fz s) (fz u) (- fz f) 0)
           (Float4 (- simd_dot s eye) (- simd_dot u eye) (simd_dot f eye) 1))"

definition matrix_translation :: "float \<Rightarrow> float \<Rightarrow> float \<Rightarrow> float4x4" where
  "matrix_translation tx ty tz =
     Float4x4 (Float4 1 0 0 0) (Float4 0 1 0 0) (Float4 0 0 1 0) (Float4 tx ty tz 1)"

section \<open>Noise functions (landscape.cpp)\<close>

definition LANDSCAPE_WIDTH :: int32 where
  "LANDSCAPE_WIDTH = 50"

definition LANDSCAPE_DEPTH :: int32 where
  "LANDSCAPE_DEPTH = 50"

definition TERRAIN_SCALE :: float where
  "TERRAIN_SCALE = 5"

definition TERRAIN_HEIGHT :: float where
  "TERRAIN_HEIGHT = 12"

text \<open>
  The integer that \<^verbatim>\<open>simple_noise\<close> masks with \<^verbatim>\<open>0x7fffffff\<close> before the division: all of it
  is \<^verbatim>\<open>int\<close> arithmetic, wrapping around.
\<close>

definition noise_hash :: "int32 \<Rightarrow> int32 \<Rightarrow> int32" where
  "noise_hash x z =
     (let n = x + z * 57;
          n = (push_bit 13 n) XOR n
      in (n * (n * n * 15731 + 789221) + 1376312589) AND 0x7fffffff)"

definition simple_noise :: "int32 \<Rightarrow> int32 \<Rightarrow> float" where
  "simple_noise x z = 1 - int_to_float (noise_hash x z) / 1073741824"

text \<open>
  \<^verbatim>\<open>blend * 3.1415927f\<close> is the product that a finite argument of the noise functions can
  drive beyond the range of \<^verbatim>\<open>float\<close>: \<^verbatim>\<open>ft\<close> is then infinite, \<^verbatim>\<open>cosf(ft)\<close> is NaN, and so
  are \<^verbatim>\<open>f\<close>, the value returned and every value computed from it. The other operations
  stay in range: \<^verbatim>\<open>a\<close>, \<^verbatim>\<open>b\<close> and \<^verbatim>\<open>f\<close> are at most \<open>1\<close> in magnitude.
\<close>

definition cosine_interpolate :: "float \<Rightarrow> float \<Rightarrow> float \<Rightarrow> error + float" where
  "cosine_interpolate a b blend =
     (let ft = blend * 3.1415927
      in if float_overflows ft then Inl NotANumber
         else (let f = (1 - cosf ft) * 0.5
               in Inr (a * (1 - f) + b * f)))"

text \<open>
  \<^verbatim>\<open>smoothed_noise\<close> converts without a check; \<^verbatim>\<open>int_x + 1\<close> and \<^verbatim>\<open>int_z + 1\<close> wrap around
  like the arithmetic of the hash. A NaN from one interpolation is the value of the next.
\<close>

definition smoothed_noise :: "(float \<Rightarrow> int32) \<Rightarrow> float \<Rightarrow> float \<Rightarrow> error + float" where
  "smoothed_noise cv x z =
     (let int_x = float_to_int cv (floorf x);
          int_z = float_to_int cv (floorf z);
          frac_x = x - int_to_float int_x;
          frac_z = z - int_to_float int_z;
          v1 = simple_noise int_x int_z;
          v2 = simple_noise (int_x + 1) int_z;
          v3 = simple_noise int_x (int_z + 1);
          v4 = simple_noise (int_x + 1) (int_z + 1)
      in case cosine_interpolate v1 v2 frac_x of
           Inl e \<Rightarrow> Inl e
         | Inr i1 \<Rightarrow>
             (case cosine_interpolate v3 v4 frac_x of
                Inl e \<Rightarrow> Inl e
              | Inr i2 \<Rightarrow> cosine_interpolate i1 i2 frac_z))"

definition octaves :: nat where
  "octaves = 5"

definition persistence :: float where
  "persistence = 0.45"

text \<open>
  The loop of \<^verbatim>\<open>fractal_noise\<close>, from the state \<open>(i, total, frequency, amplitude)\<close> it is
  entered with (\<open>tot\<close> is the source's \<^verbatim>\<open>total\<close>). A NaN octave makes the total NaN.
  Where \<^verbatim>\<open>x * frequency\<close> itself leaves the range of \<^verbatim>\<open>float\<close>, the fraction of the cell is
  infinite in the source and beyond the overflow bound in the model: the product with
  \<^verbatim>\<open>3.1415927f\<close> overflows in both.
\<close>

function fractal_loop ::
  "(float \<Rightarrow> int32) \<Rightarrow> nat \<Rightarrow> float \<Rightarrow> float \<Rightarrow> float \<Rightarrow> float \<Rightarrow> float \<Rightarrow> error + float" where
  "fractal_loop cv i tot frequency amplitude x z =
     (if i < octaves then
        (case smoothed_noise cv (x * frequency) (z * frequency) of
           Inl e \<Rightarrow> Inl e
         | Inr s \<Rightarrow>
             fractal_loop cv (i + 1) (tot + s * amplitude) (frequency * 2)
               (amplitude * persistence) x z)
      else Inr tot)"
  by pat_completeness auto
termination
  by (relation "measure (\<lambda>(cv, i, tot, frequency, amplitude, x, z). octaves - i)") auto

definition fractal_noise :: "(float \<Rightarrow> int32) \<Rightarrow> float \<Rightarrow> float \<Rightarrow> error + float" where
  "fractal_noise cv x z = fractal_loop cv 0 0 1 1 x z"

definition get_terrain_height :: "(float \<Rightarrow> int32) \<Rightarrow> float \<Rightarrow> float \<Rightarrow> error + float" where
  "get_terrain_height cv x z =
     (let noise_x = (x + int_to_float LANDSCAPE_WIDTH / 2) / int_to_float LANDSCAPE_WIDTH
                      * TERRAIN_SCALE;
          noise_z = (z + int_to_float LANDSCAPE_DEPTH / 2) / int_to_float LANDSCAPE_DEPTH
                      * TERRAIN_SCALE
      in case fractal_noise cv noise_x noise_z of
           Inl e \<Rightarrow> Inl e
         | Inr n \<Rightarrow> Inr (n * TERRAIN_HEIGHT))"

section \<open>The terrain mesh (objects.hpp, landscape.cpp)\<close>

record Vertex =
  position :: float3
  normal :: float3

record GameObject =
  modelMatrix :: float4x4
  color :: float3
  vertices :: "Vertex list"
  indices :: "uint32 list"

text \<open>
  The body of the first pair of loops of \<^verbatim>\<open>create_landscape\<close>: the height at the grid cell
  and the \<^verbatim>\<open>push_back\<close> of its vertex, with the placeholder normal. (The source would
  store a NaN height like any other; the noise coordinates of a grid, at most \<open>5\<close>, never
  produce one.)
\<close>

definition push_vertex ::
  "(float \<Rightarrow> int32) \<Rightarrow> int32 \<Rightarrow> int32 \<Rightarrow> int32 \<Rightarrow> int32 \<Rightarrow> Vertex list \<Rightarrow> error + Vertex list" where
  "push_vertex cv width depth z x vs =
     (case fractal_noise cv (int_to_float x / int_to_float width * TERRAIN_SCALE)
             (int_to_float z / int_to_float depth * TERRAIN_SCALE) of
        Inl e \<Rightarrow> Inl e
      | Inr n \<Rightarrow>
          (let y = n * TERRAIN_HEIGHT
           in Inr (vs @ [\<lparr>position = Float3 (int_to_float x - int_to_float width / 2) y
                                        (int_to_float z - int_to_float depth / 2),
                          normal = Float3 0 1 0\<rparr>])))"

text \<open>The body of the second pair of loops: the normal of the vertex at \<open>(x, z)\<close>.\<close>

definition set_normal :: "int32 \<Rightarrow> int32 \<Rightarrow> int32 \<Rightarrow> int32 \<Rightarrow> Vertex list \<Rightarrow> error + Vertex list" where
  "set_normal width depth z x vs =
     (case vec_at vs (z * width + (if 0 <s x then x - 1 else x)) of
        Inl e \<Rightarrow> Inl e
      | Inr vL \<Rightarrow>
     (case vec_at vs (z * width + (if x <s width - 1 then x + 1 else x)) of
        Inl e \<Rightarrow> Inl e
      | Inr vR \<Rightarrow>
     (case vec_at vs ((if 0 <s z then z - 1 else z) * width + x) of
        Inl e \<Rightarrow> Inl e
      | Inr vD \<Rightarrow>
     (case vec_at vs ((if z <s depth - 1 then z + 1 else z) * width + x) of
        Inl e \<Rightarrow> Inl e
      | Inr vU \<Rightarrow>
          (let heightL = fy (Vertex.position vL);
               heightR = fy (Vertex.position vR);
               heightD = fy (Vertex.position vD);
               heightU = fy (Vertex.position vU);
               n = simd_normalize (Float3 (heightL - heightR) 2 (heightD - heightU))
           in vec_update vs (z * width + x) (\<lambda>v. v\<lparr>normal := n\<rparr>))))))"

text \<open>The body of the third pair of loops: the two triangles of the quad at \<open>(x, z)\<close>.\<close>

definition push_quad :: "int32 \<Rightarrow> int32 \<Rightarrow> int32 \<Rightarrow> uint32 list \<Rightarrow> error + uint32 list" where
  "push_quad width z x idx =
     (let i0 = z * width + x;
          i1 = z * width + x + 1;
          i2 = (z + 1) * width + x;
          i3 = (z + 1) * width + x + 1
      in Inr (idx @ [int_to_uint32 i0, int_to_uint32 i2, int_to_uint32 i1,
                     int_to_uint32 i1, int_to_uint32 i2, int_to_uint32 i3]))"

definition create_landscape :: "(float \<Rightarrow> int32) \<Rightarrow> int32 \<Rightarrow> int32 \<Rightarrow> error + GameObject" where
  "create_landscape cv width depth =
     (case for_each (loop_range depth)
             (\<lambda>z. for_each (loop_range width) (push_vertex cv width depth z)) [] of
        Inl e \<Rightarrow> Inl e
      | Inr vs \<Rightarrow>
     (case for_each (loop_range depth)
             (\<lambda>z. for_each (loop_range width) (set_normal width depth z)) vs of
        Inl e \<Rightarrow> Inl e
      | Inr vs' \<Rightarrow>
     (case for_each (loop_range (depth - 1))
             (\<lambda>z. for_each (loop_range (width - 1)) (push_quad width z)) [] of
        Inl e \<Rightarrow> Inl e
      | Inr idx \<Rightarrow>
          Inr \<lparr>modelMatrix = matrix_translation 0 0 0, color = Float3 0.3 0.6 0.2,
               vertices = vs', indices = idx\<rparr>)))"

section \<open>The camera (camera.hpp)\<close>

record Camera =
  position :: float3
  yaw :: float
  pitch :: float
  moveSpeed :: float
  lookSpeed :: float
  viewMatrix :: float4x4
  projectionMatrix :: float4x4

text \<open>
  \<^verbatim>\<open>Camera cam{}\<close>: the members with a default initialiser take it, the others are zero.
\<close>

definition default_camera :: Camera where
  "default_camera =
     \<lparr>position = Float3 0 0 0, yaw = 0, pitch = 0, moveSpeed = 8, lookSpeed = 0.005,
      viewMatrix = Float4x4 (Float4 0 0 0 0) (Float4 0 0 0 0) (Float4 0 0 0 0) (Float4 0 0 0 0),
      projectionMatrix =
        Float4x4 (Float4 0 0 0 0) (Float4 0 0 0 0) (Float4 0 0 0 0) (Float4 0 0 0 0)\<rparr>"

definition make_camera :: "int32 \<Rightarrow> int32 \<Rightarrow> Camera" where
  "make_camera width height =
     (let cam = default_camera;
          cam = cam\<lparr>Camera.position := Float3 0 0 3\<rparr>;
          cam = cam\<lparr>projectionMatrix :=
                  matrix_perspective_right_hand (pi / 3)
                    (int_to_float width / int_to_float height) 0.1 100\<rparr>
      in cam)"

text \<open>
  The three \<^verbatim>\<open>static\<close> variables of \<^verbatim>\<open>update_camera\<close>. They belong to the function, not
  to a camera: there is one copy in the program, shared by all calls. \<open>initial_statics\<close> is
  their value before the first call (static storage is zero-initialised).
\<close>

record statics =
  lastMouseX :: double
  lastMouseY :: double
  firstMouse :: bool

definition initial_statics :: statics where
  "initial_statics = \<lparr>lastMouseX = 0, lastMouseY = 0, firstMouse = True\<rparr>"

text \<open>\<^verbatim>\<open>keys['W']\<close>: the array is indexed with the character's code.\<close>

definition key :: "(nat \<Rightarrow> bool) \<Rightarrow> char \<Rightarrow> bool" where
  "key keys c = keys (of_char c)"

definition camera_forward :: "Camera \<Rightarrow> float3" where
  "camera_forward cam =
     (let cos_pitch = cosf (pitch cam)
      in simd_normalize
           (Float3 (sinf (yaw cam) * cos_pitch) (sinf (pitch cam)) (- cosf (yaw cam) * cos_pitch)))"

definition camera_right :: "float3 \<Rightarrow> float3" where
  "camera_right forward = simd_normalize (simd_cross forward (Float3 0 1 0))"

definition move_direction :: "(nat \<Rightarrow> bool) \<Rightarrow> float3 \<Rightarrow> float3 \<Rightarrow> float3" where
  "move_direction keys forward right =
     (let moveDir = Float3 0 0 0;
          moveDir = (if key keys CHR ''W'' then add3 moveDir forward else moveDir);
          moveDir = (if key keys CHR ''S'' then sub3 moveDir forward else moveDir);
          moveDir = (if key keys CHR ''A'' then sub3 moveDir right else moveDir);
          moveDir = (if key keys CHR ''D'' then add3 moveDir right else moveDir);
          moveDir = (if key keys CHR '' ''
                     then Float3 (fx moveDir) (fy moveDir + 1) (fz moveDir) else moveDir);
          moveDir = (if key keys CHR ''C'' \<or> key keys CHR ''X''
                     then Float3 (fx moveDir) (fy moveDir - 1) (fz moveDir) else moveDir)
      in moveDir)"

text \<open>
  \<^verbatim>\<open>update_camera\<close> takes the statics and the camera and returns both as the call leaves
  them. Its body is two halves run one after the other: the look update (pointer delta, yaw,
  pitch and the pitch clamp) and the move update (move direction, position, position clamp
  and view matrix).
\<close>

definition look_update :: "statics \<Rightarrow> Camera \<Rightarrow> double \<Rightarrow> double \<Rightarrow> statics \<times> Camera" where
  "look_update st cam mouseX mouseY =
     (let st = (if firstMouse st
                then st\<lparr>lastMouseX := mouseX, lastMouseY := mouseY, firstMouse := False\<rparr>
                else st);
          deltaX = mouseX - lastMouseX st;
          deltaY = mouseY - lastMouseY st;
          st = st\<lparr>lastMouseX := mouseX, lastMouseY := mouseY\<rparr>;
          cam = cam\<lparr>yaw := yaw cam + deltaX * lookSpeed cam\<rparr>;
          cam = cam\<lparr>pitch := pitch cam - deltaY * lookSpeed cam\<rparr>;
          cam = (if pitch cam > 1.5708 then cam\<lparr>pitch := 1.5708\<rparr> else cam);
          cam = (if pitch cam < - 1.5708 then cam\<lparr>pitch := - 1.5708\<rparr> else cam)
      in (st, cam))"

definition move_update :: "Camera \<Rightarrow> float \<Rightarrow> (nat \<Rightarrow> bool) \<Rightarrow> Camera" where
  "move_update cam dt keys =
     (let forward = camera_forward cam;
          right = camera_right forward;
          moveDir = move_direction keys forward right;
          cam = (if simd_length moveDir > 0.01
                 then cam\<lparr>Camera.position :=
                        add3 (Camera.position cam)
                          (scale3 (scale3 (simd_normalize moveDir) (moveSpeed cam)) dt)\<rparr>
                 else cam);
          minBounds = Float3 (- 20) 0 (- 20);
          maxBounds = Float3 20 20 20;
          cam = cam\<lparr>Camera.position := simd_clamp (Camera.position cam) minBounds maxBounds\<rparr>;
          cam = cam\<lparr>viewMatrix :=
                  matrix_look_at_right_hand (Camera.position cam)
                    (add3 (Camera.position cam) forward) (Float3 0 1 0)\<rparr>
      in cam)"

definition update_camera ::
  "statics \<Rightarrow> Camera \<Rightarrow> float \<Rightarrow> (nat \<Rightarrow> bool) \<Rightarrow> double \<Rightarrow> double \<Rightarrow> statics \<times> Camera" where
  "update_camera st cam dt keys mouseX mouseY =
     (case look_update st cam mouseX mouseY of
        (st', cam') \<Rightarrow> (st', move_update cam' dt keys))"

section \<open>Notions used in the statements\<close>

text \<open>
  The height stored in a vertex list for the grid cell \<open>(x, z)\<close> of a grid \<open>w\<close> cells wide, and
  the normal as the specification words it: the normalised vector
  \<open>(heightLeft - heightRight, 2, heightDown - heightUp)\<close> of the neighbours' heights, a
  neighbour beyond the edge of the \<open>w \<times> d\<close> grid replaced by the cell itself.
\<close>

definition grid_height :: "Vertex list \<Rightarrow> nat \<Rightarrow> nat \<Rightarrow> nat \<Rightarrow> float" where
  "grid_height vs w x z = fy (Vertex.position (vs ! (z * w + x)))"

definition edge_clamped_normal :: "Vertex list \<Rightarrow> nat \<Rightarrow> nat \<Rightarrow> nat \<Rightarrow> nat \<Rightarrow> float3" where
  "edge_clamped_normal vs w d x z =
     (let heightLeft = grid_height vs w (if 0 < x then x - 1 else x) z;
          heightRight = grid_height vs w (if x < w - 1 then x + 1 else x) z;
          heightDown = grid_height vs w x (if 0 < z then z - 1 else z);
          heightUp = grid_height vs w x (if z < d - 1 then z + 1 else z)
      in simd_normalize (Float3 (heightLeft - heightRight) 2 (heightDown - heightUp)))"

text \<open>
  The vertex that the first pass pushes for the cell \<open>(x, z)\<close> of a \<open>w \<times> d\<close> grid (where the
  noise is defined), the vertex list of the first pass, row by row, and the six indices that
  the third pass pushes for the quad at \<open>(x, z)\<close>.
\<close>

definition grid_vertex :: "(float \<Rightarrow> int32) \<Rightarrow> nat \<Rightarrow> nat \<Rightarrow> nat \<Rightarrow> nat \<Rightarrow> Vertex" where
  "grid_vertex cv w d x z =
     \<lparr>Vertex.position = Float3 (real x - real w / 2)
                   (projr (fractal_noise cv (real x / real w * TERRAIN_SCALE)
                             (real z / real d * TERRAIN_SCALE)) * TERRAIN_HEIGHT)
                   (real z - real d / 2),
      normal = Float3 0 1 0\<rparr>"

definition grid_vertices :: "(float \<Rightarrow> int32) \<Rightarrow> nat \<Rightarrow> nat \<Rightarrow> Vertex list" where
  "grid_vertices cv w d = concat (map (\<lambda>z. map (\<lambda>x. grid_vertex cv w d x z) [0..<w]) [0..<d])"

definition quad_indices :: "nat \<Rightarrow> nat \<Rightarrow> nat \<Rightarrow> nat list" where
  "quad_indices w x z =
     [z * w + x, (z + 1) * w + x, z * w + x + 1, z * w + x + 1, (z + 1) * w + x, (z + 1) * w + x + 1]"

definition grid_indices :: "nat \<Rightarrow> nat \<Rightarrow> nat list" where
  "grid_indices w d = concat (map (\<lambda>z. concat (map (\<lambda>x. quad_indices w x z) [0..<w - 1])) [0..<d - 1])"

text \<open>
  The invariants of the normal pass over the vertex list \<open>vs\<close> of the first pass: the positions
  stay as they are, and the normal at index \<open>j\<close>, once set, is the one above.
\<close>

definition positions_kept :: "Vertex list \<Rightarrow> Vertex list \<Rightarrow> bool" where
  "positions_kept vs s = (length s = length vs \<and> map Vertex.position s = map Vertex.position vs)"

definition normals_set :: "Vertex list \<Rightarrow> nat \<Rightarrow> nat \<Rightarrow> nat \<Rightarrow> Vertex list \<Rightarrow> bool" where
  "normals_set vs w d j s =
     (j < w * d \<and> normal (s ! j) = edge_clamped_normal vs w d (j mod w) (j div w))"

declare fractal_loop.simps [simp del]

section \<open>The lattice hash stays in range\<close>

lemma and_mask31_bounds: "0 \<le> (k::int) AND 2147483647 \<and> k AND 2147483647 \<le> 2147483647"
proof -
  have "k AND mask 31 = take_bit 31 k" by (simp add: take_bit_eq_mask)
  moreover have "(mask 31 :: int) = 2147483647" by (simp add: mask_eq_exp_minus_1)
  moreover have "0 \<le> take_bit 31 k" by simp
  moreover have "take_bit 31 k < 2 ^ 31" by (rule take_bit_int_less_exp)
  ultimately show ?thesis by simp
qed

lemma sint_and_mask31: "sint ((w::int32) AND 0x7fffffff) = uint w AND 2147483647"
proof -
  let ?u = "uint w AND 2147483647"
  have b: "0 \<le> ?u \<and> ?u \<le> 2147483647" by (rule and_mask31_bounds)
  have "sint (w AND 0x7fffffff) = signed_take_bit 31 (uint (w AND 0x7fffffff))"
    by (simp add: sint_uint)
  also have "\<dots> = signed_take_bit 31 ?u" by (simp add: uint_and)
  also have "\<dots> = ?u"
  proof (rule signed_take_bit_int_eq_self)
    have p: "(2::int) ^ 31 = 2147483648" by simp
    show "- (2 ^ 31) \<le> ?u" using b p by linarith
    show "?u < 2 ^ 31" using b p by linarith
  qed
  finally show ?thesis .
qed

lemma noise_hash_bounds: "0 \<le> sint (noise_hash x z) \<and> sint (noise_hash x z) \<le> 2147483647"
  unfolding noise_hash_def Let_def sint_and_mask31 by (rule and_mask31_bounds)

lemma simple_noise_bounds: "- 1 < simple_noise x z \<and> simple_noise x z \<le> 1"
proof -
  let ?m = "sint (noise_hash x z)"
  have b: "0 \<le> ?m \<and> ?m \<le> 2147483647" by (rule noise_hash_bounds)
  then have "0 \<le> real_of_int ?m" and "real_of_int ?m \<le> 2147483647"
    by (simp_all del: of_int_sint)
  then show ?thesis by (simp add: simple_noise_def int_to_float_def del: of_int_sint)
qed

text \<open>
  Claim C8. For every pair of \<^verbatim>\<open>int\<close> arguments, with the integer arithmetic of the hash
  wrapping around modulo \<open>2 ^ 32\<close>, the masked hash lies in \<open>[0, 2 ^ 31 - 1]\<close>, so that
  \<open>1 - masked / 2 ^ 30\<close> lies in \<open>(-1, 1]\<close>, and \<^verbatim>\<open>simple_noise\<close> returns a value within
  \<open>[-1, 1]\<close>.
\<close>

theorem simple_noise_in_unit_interval:
  "0 \<le> sint (noise_hash ix iz) \<and> sint (noise_hash ix iz) \<le> 2 ^ 31 - 1
   \<and> - 1 < 1 - real_of_int (sint (noise_hash ix iz)) / 2 ^ 30
   \<and> 1 - real_of_int (sint (noise_hash ix iz)) / 2 ^ 30 \<le> 1
   \<and> simple_noise ix iz = 1 - real_of_int (sint (noise_hash ix iz)) / 2 ^ 30
   \<and> - 1 \<le> simple_noise ix iz \<and> simple_noise ix iz \<le> 1"
proof -
  have h: "0 \<le> sint (noise_hash ix iz) \<and> sint (noise_hash ix iz) \<le> 2147483647"
    by (rule noise_hash_bounds)
  have e: "simple_noise ix iz = 1 - real_of_int (sint (noise_hash ix iz)) / 2 ^ 30"
    by (simp add: simple_noise_def int_to_float_def del: of_int_sint)
  have s: "- 1 < simple_noise ix iz \<and> simple_noise ix iz \<le> 1"
    by (rule simple_noise_bounds)
  from h have h': "0 \<le> sint (noise_hash ix iz) \<and> sint (noise_hash ix iz) \<le> 2 ^ 31 - 1"
    by simp
  from s have r: "- 1 < 1 - real_of_int (sint (noise_hash ix iz)) / 2 ^ 30
      \<and> 1 - real_of_int (sint (noise_hash ix iz)) / 2 ^ 30 \<le> 1"
    unfolding e .
  from s have s': "- 1 \<le> simple_noise ix iz \<and> simple_noise ix iz \<le> 1" by simp
  from h' r e s' show ?thesis by blast
qed

section \<open>The fractal sum and the terrain height\<close>

subsection \<open>The fraction of a cell\<close>

lemma int_to_float_abs: "\<bar>int_to_float n\<bar> \<le> 2147483648"
proof -
  have "- (2 ^ 31) \<le> sint n" and "sint n < 2 ^ 31"
    using sint_ge [of n] sint_lt [of n] by simp_all
  then have "- 2147483648 \<le> real_of_int (sint n)" and "real_of_int (sint n) \<le> 2147483648"
    by (simp_all del: of_int_sint)
  then show ?thesis unfolding int_to_float_def by (simp only: abs_le_iff) simp
qed

lemma cell_fraction_upper:
  "\<bar>v - int_to_float (float_to_int cv (floorf v))\<bar> \<le> \<bar>v\<bar> + 2147483648"
  using int_to_float_abs [of "float_to_int cv (floorf v)"] by linarith

lemma cell_fraction_lower:
  "\<bar>v\<bar> - 2147483648 \<le> \<bar>v - int_to_float (float_to_int cv (floorf v))\<bar>"
  using int_to_float_abs [of "float_to_int cv (floorf v)"] by linarith

lemma small_fraction_finite:
  assumes "\<bar>v\<bar> \<le> 108 * 10 ^ 36"
  shows "\<not> float_overflows ((v - int_to_float (float_to_int cv (floorf v))) * 3.1415927)"
proof -
  define c where "c = v - int_to_float (float_to_int cv (floorf v))"
  have "\<bar>c\<bar> \<le> 108 * 10 ^ 36 + 2147483648"
    using cell_fraction_upper [of v cv] assms unfolding c_def by linarith
  then have "\<bar>c * 3.1415927\<bar> \<le> (108 * 10 ^ 36 + 2147483648) * 3.1415927"
    by (simp add: abs_mult)
  also have "\<dots> < 2 ^ 128 - 2 ^ 103" by simp
  finally show ?thesis unfolding float_overflows_def c_def by simp
qed

lemma large_fraction_overflows:
  assumes "1085 * 10 ^ 35 \<le> \<bar>v\<bar>"
  shows "float_overflows ((v - int_to_float (float_to_int cv (floorf v))) * 3.1415927)"
proof -
  define c where "c = v - int_to_float (float_to_int cv (floorf v))"
  have "(2::real) ^ 128 - 2 ^ 103 \<le> (1085 * 10 ^ 35 - 2147483648) * 3.1415927" by simp
  also have "1085 * 10 ^ 35 - 2147483648 \<le> \<bar>c\<bar>"
    using cell_fraction_lower [of v cv] assms unfolding c_def by linarith
  then have "(1085 * 10 ^ 35 - 2147483648) * 3.1415927 \<le> \<bar>c * 3.1415927\<bar>"
    by (simp add: abs_mult)
  finally show ?thesis unfolding float_overflows_def c_def by simp
qed

subsection \<open>One octave\<close>

lemma cosine_interpolate_error:
  "cosine_interpolate a b blend = Inl e \<Longrightarrow> e = NotANumber"
  by (auto simp: cosine_interpolate_def Let_def split: if_splits)

lemma cosine_interpolate_bound:
  assumes "cosine_interpolate a b blend = Inr v" and "\<bar>a\<bar> \<le> m" and "\<bar>b\<bar> \<le> m"
  shows "\<bar>v\<bar> \<le> m"
proof -
  define f where "f = (1 - cosf (blend * 3.1415927)) * 0.5"
  have v: "v = a * (1 - f) + b * f"
    using assms(1) by (auto simp: cosine_interpolate_def Let_def f_def split: if_splits)
  have f: "0 \<le> f" "f \<le> 1"
    using cos_le_one [of "blend * 3.1415927"] cos_ge_minus_one [of "blend * 3.1415927"]
    by (simp_all add: f_def cosf_def)
  have "\<bar>a * (1 - f) + b * f\<bar> \<le> \<bar>a * (1 - f)\<bar> + \<bar>b * f\<bar>" by (rule abs_triangle_ineq)
  also have "\<dots> = \<bar>a\<bar> * (1 - f) + \<bar>b\<bar> * f" using f by (simp add: abs_mult)
  also have "\<dots> \<le> m * (1 - f) + m * f"
    using assms(2,3) f by (intro add_mono mult_right_mono) simp_all
  also have "\<dots> = m" by (simp add: algebra_simps)
  finally show ?thesis unfolding v .
qed

lemma simple_noise_abs: "\<bar>simple_noise x z\<bar> \<le> 1"
  using simple_noise_bounds [of x z] by (simp add: abs_le_iff)

lemma smoothed_noise_defined:
  assumes "\<bar>x\<bar> \<le> 108 * 10 ^ 36" and "\<bar>z\<bar> \<le> 108 * 10 ^ 36"
  shows "\<exists>v. smoothed_noise cv x z = Inr v"
  using small_fraction_finite [OF assms(1), of cv] small_fraction_finite [OF assms(2), of cv]
  unfolding smoothed_noise_def cosine_interpolate_def Let_def by simp

lemma smoothed_noise_nan:
  assumes "1085 * 10 ^ 35 \<le> \<bar>x\<bar> \<or> 1085 * 10 ^ 35 \<le> \<bar>z\<bar>"
  shows "smoothed_noise cv x z = Inl NotANumber"
  using assms large_fraction_overflows [of x cv] large_fraction_overflows [of z cv]
  unfolding smoothed_noise_def cosine_interpolate_def Let_def by auto

lemma smoothed_noise_error:
  "smoothed_noise cv x z = Inl e \<Longrightarrow> e = NotANumber"
  unfolding smoothed_noise_def Let_def
  by (auto split: sum.splits dest: cosine_interpolate_error)

lemma smoothed_noise_bound:
  assumes "smoothed_noise cv x z = Inr v"
  shows "\<bar>v\<bar> \<le> 1"
proof -
  define int_x where "int_x = float_to_int cv (floorf x)"
  define int_z where "int_z = float_to_int cv (floorf z)"
  obtain i1 i2 where
    i1: "cosine_interpolate (simple_noise int_x int_z) (simple_noise (int_x + 1) int_z)
           (x - int_to_float int_x) = Inr i1" and
    i2: "cosine_interpolate (simple_noise int_x (int_z + 1)) (simple_noise (int_x + 1) (int_z + 1))
           (x - int_to_float int_x) = Inr i2" and
    v: "cosine_interpolate i1 i2 (z - int_to_float int_z) = Inr v"
    using assms unfolding smoothed_noise_def Let_def int_x_def int_z_def
    by (auto split: sum.splits)
  have b1: "\<bar>i1\<bar> \<le> 1"
    using i1 simple_noise_abs simple_noise_abs by (rule cosine_interpolate_bound)
  have b2: "\<bar>i2\<bar> \<le> 1"
    using i2 simple_noise_abs simple_noise_abs by (rule cosine_interpolate_bound)
  show ?thesis using v b1 b2 by (rule cosine_interpolate_bound)
qed

text \<open>On a lattice point the octave is the lattice noise itself.\<close>

lemma smoothed_noise_origin: "smoothed_noise cv 0 0 = Inr (simple_noise 0 0)"
proof -
  have i: "float_to_int cv (floorf 0) = 0" by (simp add: float_to_int_def floorf_def)
  have z: "int_to_float 0 = 0" by (simp add: int_to_float_def)
  have c: "cosine_interpolate a b 0 = Inr a" for a b
    by (simp add: cosine_interpolate_def float_overflows_def cosf_def)
  show ?thesis unfolding smoothed_noise_def Let_def i z by (simp add: c)
qed

subsection \<open>The sum of the octaves\<close>

lemma fractal_loop_defined:
  assumes "\<And>k. k < octaves - i \<Longrightarrow>
             \<bar>x * (frequency * 2 ^ k)\<bar> \<le> 108 * 10 ^ 36 \<and> \<bar>z * (frequency * 2 ^ k)\<bar> \<le> 108 * 10 ^ 36"
  shows "\<exists>t. fractal_loop cv i tot frequency amplitude x z = Inr t"
  using assms
proof (induction cv i tot frequency amplitude x z rule: fractal_loop.induct)
  case (1 cv i tot frequency amplitude x z)
  show ?case
  proof (cases "i < octaves")
    case False
    then show ?thesis by (simp add: fractal_loop.simps [of cv i])
  next
    case True
    then have "\<bar>x * (frequency * 2 ^ 0)\<bar> \<le> 108 * 10 ^ 36 \<and> \<bar>z * (frequency * 2 ^ 0)\<bar> \<le> 108 * 10 ^ 36"
      by (intro "1.prems") simp
    then obtain s where s: "smoothed_noise cv (x * frequency) (z * frequency) = Inr s"
      using smoothed_noise_defined [of "x * frequency" "z * frequency" cv] by auto
    have "\<exists>t. fractal_loop cv (i + 1) (tot + s * amplitude) (frequency * 2)
        (amplitude * persistence) x z = Inr t"
    proof (rule "1.IH" [OF True s])
      fix k
      assume "k < octaves - (i + 1)"
      then have "Suc k < octaves - i" by simp
      then have "\<bar>x * (frequency * 2 ^ Suc k)\<bar> \<le> 108 * 10 ^ 36
          \<and> \<bar>z * (frequency * 2 ^ Suc k)\<bar> \<le> 108 * 10 ^ 36"
        by (rule "1.prems")
      then show "\<bar>x * (frequency * 2 * 2 ^ k)\<bar> \<le> 108 * 10 ^ 36
          \<and> \<bar>z * (frequency * 2 * 2 ^ k)\<bar> \<le> 108 * 10 ^ 36"
        by (simp add: mult.assoc)
    qed
    then show ?thesis using True s by (simp add: fractal_loop.simps [of cv i])
  qed
qed

lemma fractal_loop_octaves:
  assumes "fractal_loop cv i tot frequency amplitude x z = Inr t" and "k < octaves - i"
  shows "\<exists>s. smoothed_noise cv (x * (frequency * 2 ^ k)) (z * (frequency * 2 ^ k)) = Inr s"
  using assms
proof (induction cv i tot frequency amplitude x z arbitrary: k rule: fractal_loop.induct)
  case (1 cv i tot frequency amplitude x z)
  from "1.prems"(2) have lt: "i < octaves" by simp
  obtain s where s: "smoothed_noise cv (x * frequency) (z * frequency) = Inr s"
    and r: "fractal_loop cv (i + 1) (tot + s * amplitude) (frequency * 2)
        (amplitude * persistence) x z = Inr t"
    using "1.prems"(1) lt by (auto simp: fractal_loop.simps [of cv i] split: sum.splits)
  show ?case
  proof (cases k)
    case 0
    then show ?thesis using s by simp
  next
    case (Suc k')
    then have "k' < octaves - (i + 1)" using "1.prems"(2) by simp
    then have "\<exists>s. smoothed_noise cv (x * (frequency * 2 * 2 ^ k')) (z * (frequency * 2 * 2 ^ k'))
        = Inr s"
      by (rule "1.IH" [OF lt s r])
    then show ?thesis using Suc by (simp add: mult.assoc)
  qed
qed

lemma fractal_loop_error:
  "fractal_loop cv i tot frequency amplitude x z = Inl e \<Longrightarrow> e = NotANumber"
proof (induction cv i tot frequency amplitude x z rule: fractal_loop.induct)
  case (1 cv i tot frequency amplitude x z)
  show ?case
  proof (cases "smoothed_noise cv (x * frequency) (z * frequency)")
    case (Inl e')
    then have "e' = NotANumber" by (rule smoothed_noise_error)
    then show ?thesis using "1.prems" Inl
      by (simp add: fractal_loop.simps [of cv i] split: if_splits)
  next
    case (Inr s)
    then show ?thesis using "1.prems" "1.IH"
      by (simp add: fractal_loop.simps [of cv i] split: if_splits)
  qed
qed

lemma fractal_loop_bound:
  assumes "fractal_loop cv i tot frequency amplitude x z = Inr t" and "0 \<le> amplitude"
  shows "\<bar>t - tot\<bar> \<le> amplitude * (\<Sum>k<octaves - i. persistence ^ k)"
  using assms
proof (induction cv i tot frequency amplitude x z rule: fractal_loop.induct)
  case (1 cv i tot frequency amplitude x z)
  show ?case
  proof (cases "i < octaves")
    case False
    then show ?thesis using "1.prems" by (simp add: fractal_loop.simps [of cv i])
  next
    case True
    obtain s where s: "smoothed_noise cv (x * frequency) (z * frequency) = Inr s"
      and r: "fractal_loop cv (i + 1) (tot + s * amplitude) (frequency * 2)
          (amplitude * persistence) x z = Inr t"
      using "1.prems"(1) True by (auto simp: fractal_loop.simps [of cv i] split: sum.splits)
    have p: "0 \<le> amplitude * persistence" using "1.prems"(2) by (simp add: persistence_def)
    have ih: "\<bar>t - (tot + s * amplitude)\<bar>
        \<le> amplitude * persistence * (\<Sum>k<octaves - (i + 1). persistence ^ k)"
      by (rule "1.IH" [OF True s r p])
    have sb: "\<bar>s * amplitude\<bar> \<le> amplitude"
      using mult_left_le [of "\<bar>s\<bar>" amplitude] smoothed_noise_bound [OF s] "1.prems"(2)
      by (simp add: abs_mult mult.commute)
    obtain n where n: "octaves - i = Suc n" using True by (cases "octaves - i") simp_all
    then have n': "octaves - (i + 1) = n" by simp
    have "\<bar>t - tot\<bar> \<le> \<bar>t - (tot + s * amplitude)\<bar> + \<bar>s * amplitude\<bar>" by simp
    also have "\<dots> \<le> amplitude * persistence * (\<Sum>k<n. persistence ^ k) + amplitude"
      using ih sb unfolding n' by simp
    also have "\<dots> = amplitude * (\<Sum>k<Suc n. persistence ^ k)"
    proof -
      have "(\<Sum>k<Suc n. persistence ^ k) = 1 + persistence * (\<Sum>k<n. persistence ^ k)"
        by (simp only: sum.lessThan_Suc_shift power_0 power_Suc sum_distrib_left)
      then show ?thesis by (simp add: algebra_simps)
    qed
    finally show ?thesis unfolding n .
  qed
qed

lemma octave_sum: "(\<Sum>k<octaves. persistence ^ k) = 1.78463125"
  by (simp add: octaves_def persistence_def eval_nat_numeral)

lemma fractal_noise_bound:
  assumes "fractal_noise cv x z = Inr t"
  shows "\<bar>t\<bar> \<le> 1.78463125"
  using fractal_loop_bound [of cv 0 0 1 1 x z t] assms
  by (simp add: fractal_noise_def octave_sum)

lemma octave_coordinate:
  assumes "\<bar>(v::real) * 16\<bar> \<le> b" and "k < octaves"
  shows "\<bar>v * (1 * 2 ^ k)\<bar> \<le> b"
proof -
  have "k \<le> 4" using assms(2) by (simp add: octaves_def)
  then have "(2::real) ^ k \<le> 2 ^ 4" by (intro power_increasing) simp_all
  then have "\<bar>v\<bar> * 2 ^ k \<le> \<bar>v\<bar> * 16" by (intro mult_left_mono) simp_all
  then show ?thesis using assms(1) by (simp add: abs_mult)
qed

lemma fractal_noise_defined:
  assumes "\<bar>x * 16\<bar> \<le> 108 * 10 ^ 36" and "\<bar>z * 16\<bar> \<le> 108 * 10 ^ 36"
  shows "\<exists>t. fractal_noise cv x z = Inr t"
  unfolding fractal_noise_def
proof (rule fractal_loop_defined)
  fix k
  assume "k < octaves - 0"
  then have "k < octaves" by simp
  then show "\<bar>x * (1 * 2 ^ k)\<bar> \<le> 108 * 10 ^ 36 \<and> \<bar>z * (1 * 2 ^ k)\<bar> \<le> 108 * 10 ^ 36"
    using assms by (intro conjI octave_coordinate)
qed

lemma fractal_noise_nan:
  assumes "1085 * 10 ^ 35 \<le> \<bar>x * 16\<bar> \<or> 1085 * 10 ^ 35 \<le> \<bar>z * 16\<bar>"
  shows "fractal_noise cv x z = Inl NotANumber"
proof (cases "fractal_noise cv x z")
  case (Inl e)
  then show ?thesis
    using fractal_loop_error [of cv 0 0 1 1 x z e] by (simp add: fractal_noise_def)
next
  case (Inr t)
  then have "\<exists>s. smoothed_noise cv (x * (1 * 2 ^ 4)) (z * (1 * 2 ^ 4)) = Inr s"
    unfolding fractal_noise_def by (rule fractal_loop_octaves) (simp add: octaves_def)
  moreover have "smoothed_noise cv (x * 16) (z * 16) = Inl NotANumber"
    using assms by (rule smoothed_noise_nan)
  ultimately show ?thesis by simp
qed

lemma fractal_loop_origin:
  "fractal_loop cv i tot frequency amplitude 0 0
     = (if i < octaves
        then fractal_loop cv (i + 1) (tot + simple_noise 0 0 * amplitude) (frequency * 2)
               (amplitude * persistence) 0 0
        else Inr tot)"
  by (simp add: fractal_loop.simps [of cv i] smoothed_noise_origin)

lemma fractal_noise_origin: "fractal_noise cv 0 0 = Inr (simple_noise 0 0 * 1.78463125)"
proof -
  have "fractal_noise cv 0 0
      = Inr (simple_noise 0 0 * (1 + persistence * (1 + persistence * (1 + persistence
          * (1 + persistence)))))"
    unfolding fractal_noise_def
    by (simp add: fractal_loop_origin octaves_def algebra_simps)
  then show ?thesis by (simp add: persistence_def)
qed

lemma simple_noise_origin: "simple_noise 0 0 = - (302570765 / 1073741824)"
proof -
  have "noise_hash 0 0 = 1376312589" by (simp add: noise_hash_def)
  moreover have "sint (1376312589 :: int32) = 1376312589" by simp
  ultimately show ?thesis by (simp add: simple_noise_def int_to_float_def del: of_int_sint)
qed

subsection \<open>The height\<close>

lemma get_terrain_height_eq:
  "get_terrain_height cv x z =
     (case fractal_noise cv ((x + 25) / 50 * 5) ((z + 25) / 50 * 5) of
        Inl e \<Rightarrow> Inl e
      | Inr n \<Rightarrow> Inr (n * 12))"
proof -
  have w: "int_to_float LANDSCAPE_WIDTH = 50" "int_to_float LANDSCAPE_DEPTH = 50"
    by (simp_all add: int_to_float_def LANDSCAPE_WIDTH_def LANDSCAPE_DEPTH_def)
  have h: "(50::real) / 2 = 25" by simp
  show ?thesis
    unfolding get_terrain_height_def Let_def w h TERRAIN_SCALE_def TERRAIN_HEIGHT_def ..
qed

lemma get_terrain_height_bound:
  assumes "get_terrain_height cv x z = Inr h"
  shows "- 25 \<le> h \<and> h \<le> 25"
proof -
  from assms obtain n where n: "fractal_noise cv ((x + 25) / 50 * 5) ((z + 25) / 50 * 5) = Inr n"
    and h: "h = n * 12"
    by (auto simp: get_terrain_height_eq split: sum.splits)
  have "\<bar>n\<bar> \<le> 1.78463125" using n by (rule fractal_noise_bound)
  then have "- 1.78463125 \<le> n \<and> n \<le> 1.78463125" by (auto simp only: abs_le_iff)
  then show ?thesis unfolding h by auto
qed

lemma noise_coordinate_small:
  assumes "\<bar>v::real\<bar> \<le> 67 * 10 ^ 36"
  shows "\<bar>(v + 25) / 50 * 5 * 16\<bar> \<le> 108 * 10 ^ 36"
proof -
  have e: "(v + 25) / 50 * 5 * 16 = (v + 25) * (8 / 5)" by simp
  have "\<bar>v + 25\<bar> \<le> 67 * 10 ^ 36 + 25" using assms by linarith
  then have "\<bar>v + 25\<bar> * (8 / 5) \<le> (67 * 10 ^ 36 + 25) * (8 / 5)"
    by (intro mult_right_mono) simp_all
  also have "\<dots> \<le> 108 * 10 ^ 36" by simp
  finally show ?thesis unfolding e by (simp add: abs_mult)
qed

lemma noise_coordinate_large:
  assumes "68 * 10 ^ 36 \<le> \<bar>v::real\<bar>"
  shows "1085 * 10 ^ 35 \<le> \<bar>(v + 25) / 50 * 5 * 16\<bar>"
proof -
  have e: "(v + 25) / 50 * 5 * 16 = (v + 25) * (8 / 5)" by simp
  have "(1085::real) * 10 ^ 35 \<le> (68 * 10 ^ 36 - 25) * (8 / 5)" by simp
  also have "68 * 10 ^ 36 - 25 \<le> \<bar>v + 25\<bar>" using assms by linarith
  then have "(68 * 10 ^ 36 - 25) * (8 / 5) \<le> \<bar>v + 25\<bar> * (8 / 5)"
    by (intro mult_right_mono) simp_all
  finally show ?thesis unfolding e by (simp add: abs_mult)
qed

lemma get_terrain_height_defined:
  assumes "\<bar>x\<bar> \<le> 67 * 10 ^ 36" and "\<bar>z\<bar> \<le> 67 * 10 ^ 36"
  shows "\<exists>h. get_terrain_height cv x z = Inr h"
proof -
  have "\<bar>(x + 25) / 50 * 5 * 16\<bar> \<le> 108 * 10 ^ 36" and "\<bar>(z + 25) / 50 * 5 * 16\<bar> \<le> 108 * 10 ^ 36"
    using assms by (simp_all add: noise_coordinate_small)
  then obtain t where "fractal_noise cv ((x + 25) / 50 * 5) ((z + 25) / 50 * 5) = Inr t"
    using fractal_noise_defined by blast
  then have "get_terrain_height cv x z = Inr (t * 12)"
    by (simp only: get_terrain_height_eq sum.case)
  then show ?thesis ..
qed

lemma get_terrain_height_nan:
  assumes "68 * 10 ^ 36 \<le> \<bar>x\<bar> \<or> 68 * 10 ^ 36 \<le> \<bar>z\<bar>"
  shows "get_terrain_height cv x z = Inl NotANumber"
proof -
  have "1085 * 10 ^ 35 \<le> \<bar>(x + 25) / 50 * 5 * 16\<bar> \<or> 1085 * 10 ^ 35 \<le> \<bar>(z + 25) / 50 * 5 * 16\<bar>"
    using assms noise_coordinate_large [of x] noise_coordinate_large [of z] by blast
  then have "fractal_noise cv ((x + 25) / 50 * 5) ((z + 25) / 50 * 5) = Inl NotANumber"
    by (rule fractal_noise_nan)
  then show ?thesis by (simp only: get_terrain_height_eq sum.case)
qed

lemma get_terrain_height_origin:
  "get_terrain_height cv (- 25) (- 25) = Inr (- (302570765 / 1073741824) * 1.78463125 * 12)"
  by (simp add: get_terrain_height_eq fractal_noise_origin simple_noise_origin)

text \<open>
  Claim C2 as stated fails: \<open>3 * 2 ^ 126\<close> is a finite \<^verbatim>\<open>float\<close>, and there the noise
  coordinate of the fourth octave, \<open>noise_x * 8\<close>, is so large that its product with
  \<^verbatim>\<open>3.1415927f\<close> in \<^verbatim>\<open>cosine_interpolate\<close> is infinite: the cosine, the octave, the sum and the
  height returned are NaN, which lies in no interval. The conversions to \<^verbatim>\<open>int\<close> play no
  part in it.
\<close>

theorem terrain_height_counterexample:
  "get_terrain_height convert_x86_64 (3 * 2 ^ 126) 0 = Inl NotANumber
   \<and> get_terrain_height convert_arm64 (3 * 2 ^ 126) 0 = Inl NotANumber"
proof -
  have "(68::real) * 10 ^ 36 \<le> \<bar>3 * 2 ^ 126\<bar>" by simp
  then show ?thesis by (intro conjI get_terrain_height_nan disjI1)
qed

text \<open>
  Claim C2, as amended. Whatever \<^verbatim>\<open>int\<close> the platform's conversion yields out of range:
  for \<open>\<bar>x\<bar>\<close> and \<open>\<bar>z\<bar>\<close> up to \<open>6.7 * 10 ^ 37\<close>, \<^verbatim>\<open>get_terrain_height\<close> returns a number, and it
  lies in \<open>[-25, 25]\<close>; when \<open>\<bar>x\<bar>\<close> or \<open>\<bar>z\<bar>\<close> is \<open>6.8 * 10 ^ 37\<close> or more, it returns NaN; and
  whenever it returns a number, also between the two bounds, where rounding decides whether
  the last octave overflows, that number lies in \<open>[-25, 25]\<close>.
\<close>

theorem terrain_height_bounded:
  "(\<bar>x\<bar> \<le> 67 * 10 ^ 36 \<and> \<bar>z\<bar> \<le> 67 * 10 ^ 36 \<longrightarrow>
      (\<exists>h. get_terrain_height cv x z = Inr h \<and> - 25 \<le> h \<and> h \<le> 25))
   \<and> (68 * 10 ^ 36 \<le> \<bar>x\<bar> \<or> 68 * 10 ^ 36 \<le> \<bar>z\<bar> \<longrightarrow>
      get_terrain_height cv x z = Inl NotANumber)
   \<and> (\<forall>h. get_terrain_height cv x z = Inr h \<longrightarrow> - 25 \<le> h \<and> h \<le> 25)"
proof (intro conjI impI allI)
  assume "\<bar>x\<bar> \<le> 67 * 10 ^ 36 \<and> \<bar>z\<bar> \<le> 67 * 10 ^ 36"
  then obtain h where "get_terrain_height cv x z = Inr h"
    using get_terrain_height_defined by blast
  then show "\<exists>h. get_terrain_height cv x z = Inr h \<and> - 25 \<le> h \<and> h \<le> 25"
    using get_terrain_height_bound by blast
next
  assume "68 * 10 ^ 36 \<le> \<bar>x\<bar> \<or> 68 * 10 ^ 36 \<le> \<bar>z\<bar>"
  then show "get_terrain_height cv x z = Inl NotANumber" by (rule get_terrain_height_nan)
next
  fix h
  assume "get_terrain_height cv x z = Inr h"
  then show "- 25 \<le> h" and "h \<le> 25" using get_terrain_height_bound by blast+
qed

theorem terrain_height_bounded_witness:
  "(\<exists>h. get_terrain_height convert_x86_64 0 (- 10000000000) = Inr h \<and> - 25 \<le> h \<and> h \<le> 25)
   \<and> get_terrain_height convert_arm64 (2 ^ 127) 0 = Inl NotANumber
   \<and> get_terrain_height convert_arm64 (- 25) (- 25)
       = Inr (- (302570765 / 1073741824) * 1.78463125 * 12)
   \<and> - 25 \<le> - (302570765 / 1073741824) * 1.78463125 * (12::real)
   \<and> - (302570765 / 1073741824) * 1.78463125 * (12::real) \<le> 25"
  using terrain_height_bounded [of 0 "- 10000000000" convert_x86_64]
    terrain_height_bounded [of "2 ^ 127" 0 convert_arm64]
    terrain_height_bounded [of "- 25" "- 25" convert_arm64]
    get_terrain_height_origin [of convert_arm64]
  by simp

section \<open>The camera update\<close>

lemma look_update_yaw:
  "yaw (snd (look_update st cam mouseX mouseY)) =
     yaw cam + (mouseX - (if firstMouse st then mouseX else lastMouseX st)) * lookSpeed cam"
  by (simp add: look_update_def Let_def)

lemma look_update_pitch:
  "pitch (snd (look_update st cam mouseX mouseY)) =
     (let p = pitch cam - (mouseY - (if firstMouse st then mouseY else lastMouseY st)) * lookSpeed cam
      in if p > 1.5708 then 1.5708 else if p < - 1.5708 then - 1.5708 else p)"
  by (simp add: look_update_def Let_def)

lemma look_update_statics:
  "fst (look_update st cam mouseX mouseY) =
     \<lparr>lastMouseX = mouseX, lastMouseY = mouseY, firstMouse = False\<rparr>"
  by (simp add: look_update_def Let_def)

lemma look_update_position:
  "Camera.position (snd (look_update st cam mouseX mouseY)) = Camera.position cam"
  by (simp add: look_update_def Let_def)

lemma look_update_speeds:
  "moveSpeed (snd (look_update st cam mouseX mouseY)) = moveSpeed cam"
  "lookSpeed (snd (look_update st cam mouseX mouseY)) = lookSpeed cam"
  by (simp_all add: look_update_def Let_def)

lemma move_update_yaw_pitch:
  "yaw (move_update cam dt keys) = yaw cam" "pitch (move_update cam dt keys) = pitch cam"
  by (simp_all add: move_update_def Let_def)

lemma move_update_speeds:
  "moveSpeed (move_update cam dt keys) = moveSpeed cam"
  "lookSpeed (move_update cam dt keys) = lookSpeed cam"
  by (simp_all add: move_update_def Let_def)

lemma move_update_position:
  "Camera.position (move_update cam dt keys) =
     (let moveDir = move_direction keys (camera_forward cam) (camera_right (camera_forward cam))
      in simd_clamp
           (if simd_length moveDir > 0.01
            then add3 (Camera.position cam)
                   (scale3 (scale3 (simd_normalize moveDir) (moveSpeed cam)) dt)
            else Camera.position cam)
           (Float3 (- 20) 0 (- 20)) (Float3 20 20 20))"
  by (simp add: move_update_def Let_def)

lemma update_camera_snd:
  "snd (update_camera st cam dt keys mouseX mouseY) =
     move_update (snd (look_update st cam mouseX mouseY)) dt keys"
  by (simp add: update_camera_def split: prod.split)

lemma update_camera_fst:
  "fst (update_camera st cam dt keys mouseX mouseY) = fst (look_update st cam mouseX mouseY)"
  by (simp add: update_camera_def split: prod.split)

lemma simd_clamp_sel:
  "fx (simd_clamp p lo hi) = clampf (fx p) (fx lo) (fx hi)"
  "fy (simd_clamp p lo hi) = clampf (fy p) (fy lo) (fy hi)"
  "fz (simd_clamp p lo hi) = clampf (fz p) (fz lo) (fz hi)"
  by (simp_all add: simd_clamp_def)

lemma clampf_bounds: "lo \<le> hi \<Longrightarrow> lo \<le> clampf x lo hi \<and> clampf x lo hi \<le> hi"
  by (simp add: clampf_def)

lemma clampf_id: "lo \<le> x \<Longrightarrow> x \<le> hi \<Longrightarrow> clampf x lo hi = x"
  by (simp add: clampf_def)

lemma update_camera_in_box:
  "- 20 \<le> fx (Camera.position (snd (update_camera st cam dt keys mouseX mouseY)))
   \<and> fx (Camera.position (snd (update_camera st cam dt keys mouseX mouseY))) \<le> 20
   \<and> 0 \<le> fy (Camera.position (snd (update_camera st cam dt keys mouseX mouseY)))
   \<and> fy (Camera.position (snd (update_camera st cam dt keys mouseX mouseY))) \<le> 20
   \<and> - 20 \<le> fz (Camera.position (snd (update_camera st cam dt keys mouseX mouseY)))
   \<and> fz (Camera.position (snd (update_camera st cam dt keys mouseX mouseY))) \<le> 20"
  unfolding update_camera_snd move_update_position Let_def simd_clamp_sel
  using clampf_bounds [of "- 20" 20] clampf_bounds [of 0 20] by simp


text \<open>The clamp bound \<open>1.5708\<close> lies above \<open>\<pi> / 2\<close>: the cosine is negative there.\<close>

lemma cos_partial_sum_14:
  "(\<Sum>m<14. cos_coeff m * (x::real) ^ m) =
     1 - x^2 / 2 + x^4 / 24 - x^6 / 720 + x^8 / 40320 - x^10 / 3628800 + x^12 / 479001600"
proof -
  have "(\<Sum>m<14. cos_coeff m * x ^ m) = (\<Sum>m\<leftarrow>[0..<14]. cos_coeff m * x ^ m)"
    by (simp add: sum_list_sum_nth atLeast0LessThan)
  also have "[0..<14] = [0,1,2,3,4,5,6,7,8,9,10,11,12,13::nat]"
    by (simp add: upt_rec)
  finally show ?thesis
    by (simp add: cos_coeff_def fact_numeral)
qed

lemma taylor_value_at_clamp:
  "1 - (1.5708::real)^2 / 2 + 1.5708^4 / 24 - 1.5708^6 / 720 + 1.5708^8 / 40320
     - 1.5708^10 / 3628800 + 1.5708^12 / 479001600 + 1.5708^14 / 87178291200 < 0"
  by (simp add: power_divide)

lemma cos_clamp_negative: "cos (1.5708::real) < 0"
proof -
  let ?x = "1.5708::real"
  obtain t where t: "cos ?x = (\<Sum>m<14. cos_coeff m * ?x ^ m)
      + (cos (t + 1/2 * real (14::nat) * pi) / fact 14) * ?x ^ 14"
    using Maclaurin_cos_expansion2 [of ?x 14] by auto
  have "cos (t + 1/2 * real (14::nat) * pi) \<le> 1" by (rule cos_le_one)
  then have "(cos (t + 1/2 * real (14::nat) * pi) / fact 14) * ?x ^ 14 \<le> (1 / fact 14) * ?x ^ 14"
    by (intro mult_right_mono divide_right_mono) simp_all
  then have "cos ?x \<le> (\<Sum>m<14. cos_coeff m * ?x ^ m) + (1 / fact 14) * ?x ^ 14"
    using t by linarith
  also have "\<dots> < 0"
    unfolding cos_partial_sum_14 using taylor_value_at_clamp by (simp add: fact_numeral)
  finally show ?thesis .
qed

lemma pi_half_less_clamp: "pi / 2 < (1.5708::real)"
proof (rule ccontr)
  assume "\<not> pi / 2 < (1.5708::real)"
  then have "(1.5708::real) \<le> pi / 2" by simp
  moreover have "- (pi / 2) \<le> (1.5708::real)"
    using pi_gt_zero by (simp add: order_trans [of _ 0])
  ultimately have "0 \<le> cos (1.5708::real)" by (rule cos_ge_zero [rotated])
  with cos_clamp_negative show False by simp
qed

lemma make_camera_fields:
  "yaw (make_camera w h) = 0" "pitch (make_camera w h) = 0"
  "moveSpeed (make_camera w h) = 8" "lookSpeed (make_camera w h) = 0.005"
  "Camera.position (make_camera w h) = Float3 0 0 3"
  by (simp_all add: make_camera_def default_camera_def Let_def)

lemma update_camera_pitch:
  "pitch (snd (update_camera st cam dt keys mouseX mouseY)) =
     (let p = pitch cam - (mouseY - (if firstMouse st then mouseY else lastMouseY st)) * lookSpeed cam
      in if p > 1.5708 then 1.5708 else if p < - 1.5708 then - 1.5708 else p)"
  by (simp only: update_camera_snd move_update_yaw_pitch look_update_pitch)

lemma update_camera_yaw:
  "yaw (snd (update_camera st cam dt keys mouseX mouseY)) =
     yaw cam + (mouseX - (if firstMouse st then mouseX else lastMouseX st)) * lookSpeed cam"
  by (simp only: update_camera_snd move_update_yaw_pitch look_update_yaw)

lemma update_camera_statics:
  "fst (update_camera st cam dt keys mouseX mouseY) =
     \<lparr>lastMouseX = mouseX, lastMouseY = mouseY, firstMouse = False\<rparr>"
  by (simp only: update_camera_fst look_update_statics)

lemma update_camera_lookSpeed:
  "lookSpeed (snd (update_camera st cam dt keys mouseX mouseY)) = lookSpeed cam"
  by (simp only: update_camera_snd move_update_speeds look_update_speeds)

text \<open>
  Claim C4, as amended. After every call to \<^verbatim>\<open>update_camera\<close>, for every value of the
  statics, every camera and every pointer position, the camera's pitch lies within the closed
  interval \<open>[-1.5708, 1.5708]\<close>, the bounds of the clamp.
\<close>

theorem pitch_clamped:
  "- 1.5708 \<le> pitch (snd (update_camera st cam dt keys mouseX mouseY))
   \<and> pitch (snd (update_camera st cam dt keys mouseX mouseY)) \<le> 1.5708"
  by (simp add: update_camera_pitch Let_def)

text \<open>
  Claim C4 as stated fails: the clamp bound \<open>1.5708\<close> is greater than \<open>\<pi> / 2\<close>, and the pitch
  reaches it. A new camera is updated once with the pointer at \<open>(0, 0)\<close>, then with the pointer
  at \<open>(0, -10000)\<close> (the steps of the repository's test \<^verbatim>\<open>PitchClamp\<close>): its pitch is
  \<open>1.5708\<close>, not below \<open>\<pi> / 2\<close>.
\<close>

theorem pitch_open_interval_counterexample:
  "\<not> pitch (snd (update_camera
        (fst (update_camera initial_statics (make_camera 800 600) 1 (\<lambda>k. False) 0 0))
        (snd (update_camera initial_statics (make_camera 800 600) 1 (\<lambda>k. False) 0 0))
        1 (\<lambda>k. False) 0 (- 10000))) < pi / 2"
proof -
  have "pitch (snd (update_camera
        (fst (update_camera initial_statics (make_camera 800 600) 1 (\<lambda>k. False) 0 0))
        (snd (update_camera initial_statics (make_camera 800 600) 1 (\<lambda>k. False) 0 0))
        1 (\<lambda>k. False) 0 (- 10000))) = 1.5708"
    by (simp add: update_camera_pitch update_camera_statics update_camera_lookSpeed
        initial_statics_def make_camera_fields Let_def)
  then show ?thesis using pi_half_less_clamp by simp
qed


text \<open>
  Claim C5 as stated fails: the first-call flag and the last pointer position are statics of
  the function, not state of a camera. After one camera was updated with the pointer at
  \<open>(0, 0)\<close>, the very first update of a second, newly created camera with the pointer at
  \<open>(100, 0)\<close> changes its yaw.
\<close>

theorem first_update_of_later_camera_counterexample:
  "yaw (snd (update_camera
        (fst (update_camera initial_statics (make_camera 800 600) 1 (\<lambda>k. False) 0 0))
        (make_camera 1024 768) 1 (\<lambda>k. False) 100 0))
   \<noteq> yaw (make_camera 1024 768)"
  by (simp add: update_camera_yaw update_camera_statics make_camera_fields)

text \<open>
  Claim C5, as amended. The call of \<^verbatim>\<open>update_camera\<close> that finds the static first-call flag
  set (the first call in the program, whichever camera it is for) takes its pointer delta as
  zero: it leaves yaw unchanged, and pitch too when it is within the clamp bounds, as a new
  camera's is, regardless of the pointer coordinates. Every other call, also the first one
  for a camera created later, takes the delta from the pointer position of the previous call.
  Every call leaves the flag cleared and the pointer position stored.
\<close>

theorem first_call_zero_delta:
  "(firstMouse st \<and> - 1.5708 \<le> pitch cam \<and> pitch cam \<le> 1.5708 \<longrightarrow>
      yaw (snd (update_camera st cam dt keys mouseX mouseY)) = yaw cam
      \<and> pitch (snd (update_camera st cam dt keys mouseX mouseY)) = pitch cam)
   \<and> (\<not> firstMouse st \<longrightarrow>
      yaw (snd (update_camera st cam dt keys mouseX mouseY)) =
        yaw cam + (mouseX - lastMouseX st) * lookSpeed cam
      \<and> pitch (snd (update_camera st cam dt keys mouseX mouseY)) =
        (let p = pitch cam - (mouseY - lastMouseY st) * lookSpeed cam
         in if p > 1.5708 then 1.5708 else if p < - 1.5708 then - 1.5708 else p))
   \<and> fst (update_camera st cam dt keys mouseX mouseY) =
        \<lparr>lastMouseX = mouseX, lastMouseY = mouseY, firstMouse = False\<rparr>"
  by (simp add: update_camera_yaw update_camera_pitch update_camera_statics Let_def)

theorem first_call_zero_delta_witness:
  "(yaw (snd (update_camera initial_statics (make_camera 800 600) 1 (\<lambda>k. False) 0 (- 10000))) = 0
    \<and> pitch (snd (update_camera initial_statics (make_camera 800 600) 1 (\<lambda>k. False) 0 (- 10000))) = 0)
   \<and> (yaw (snd (update_camera \<lparr>lastMouseX = 0, lastMouseY = 0, firstMouse = False\<rparr>
               (make_camera 800 600) 1 (\<lambda>k. False) 100 (- 10000))) = 0.5
    \<and> pitch (snd (update_camera \<lparr>lastMouseX = 0, lastMouseY = 0, firstMouse = False\<rparr>
               (make_camera 800 600) 1 (\<lambda>k. False) 100 (- 10000))) = 1.5708)"
  using first_call_zero_delta [of initial_statics "make_camera 800 600" 1 "\<lambda>k. False" 0 "- 10000"]
    first_call_zero_delta [of "\<lparr>lastMouseX = 0, lastMouseY = 0, firstMouse = False\<rparr>"
      "make_camera 800 600" 1 "\<lambda>k. False" 100 "- 10000"]
  by (simp add: initial_statics_def make_camera_fields)

lemma simd_clamp_id:
  "fx lo \<le> fx p \<Longrightarrow> fx p \<le> fx hi \<Longrightarrow> fy lo \<le> fy p \<Longrightarrow> fy p \<le> fy hi \<Longrightarrow>
   fz lo \<le> fz p \<Longrightarrow> fz p \<le> fz hi \<Longrightarrow> simd_clamp p lo hi = p"
  by (cases p) (simp add: simd_clamp_def clampf_id)

lemma camera_forward_level: "yaw cam = 0 \<Longrightarrow> pitch cam = 0 \<Longrightarrow> camera_forward cam = Float3 0 0 (- 1)"
  by (simp add: camera_forward_def cosf_def sinf_def simd_normalize_def simd_length_def
      simd_dot_def scale3_def Let_def)

lemma camera_right_level: "camera_right (Float3 0 0 (- 1)) = Float3 1 0 0"
  by (simp add: camera_right_def simd_cross_def simd_normalize_def simd_length_def
      simd_dot_def scale3_def)

lemma move_direction_only_D:
  "move_direction (\<lambda>k. k = of_char CHR ''D'') forward right = right"
  by (cases right) (simp add: move_direction_def key_def add3_def Let_def)

lemma move_direction_balanced:
  assumes "key keys CHR ''W'' = key keys CHR ''S''"
    and "key keys CHR ''A'' = key keys CHR ''D''"
    and "key keys CHR '' '' = (key keys CHR ''C'' \<or> key keys CHR ''X'')"
  shows "move_direction keys forward right = Float3 0 0 0"
proof (cases "key keys CHR ''S''")
  case s: True
  show ?thesis
  proof (cases "key keys CHR ''D''")
    case True
    with s assms show ?thesis
      by (auto simp: move_direction_def add3_def sub3_def Let_def)
  next
    case False
    with s assms show ?thesis
      by (auto simp: move_direction_def add3_def sub3_def Let_def)
  qed
next
  case s: False
  show ?thesis
  proof (cases "key keys CHR ''D''")
    case True
    with s assms show ?thesis
      by (auto simp: move_direction_def add3_def sub3_def Let_def)
  next
    case False
    with s assms show ?thesis
      by (auto simp: move_direction_def add3_def sub3_def Let_def)
  qed
qed

lemma update_camera_position:
  "Camera.position (snd (update_camera st cam dt keys mouseX mouseY)) =
     (let cam' = snd (look_update st cam mouseX mouseY);
          moveDir = move_direction keys (camera_forward cam') (camera_right (camera_forward cam'))
      in simd_clamp
           (if simd_length moveDir > 0.01
            then add3 (Camera.position cam)
                   (scale3 (scale3 (simd_normalize moveDir) (moveSpeed cam)) dt)
            else Camera.position cam)
           (Float3 (- 20) 0 (- 20)) (Float3 20 20 20))"
  by (simp only: update_camera_snd move_update_position look_update_position look_update_speeds Let_def)

lemma camera_forward_cong:
  "yaw c = yaw c' \<Longrightarrow> pitch c = pitch c' \<Longrightarrow> camera_forward c = camera_forward c'"
  by (simp add: camera_forward_def)

lemma camera_forward_update:
  "camera_forward (snd (update_camera st cam dt keys mouseX mouseY)) =
     camera_forward (snd (look_update st cam mouseX mouseY))"
  by (rule camera_forward_cong) (simp_all only: update_camera_snd move_update_yaw_pitch)


lemma strafe_right_example:
  assumes "firstMouse st \<or> (lastMouseX st = mouseX \<and> lastMouseY st = mouseY)"
  shows "Camera.position (snd (update_camera st
            ((make_camera w h)\<lparr>Camera.position := Float3 19.9 0 0\<rparr>) 10
            (\<lambda>k. k = of_char CHR ''D'') mouseX mouseY)) = Float3 20 0 0"
proof -
  let ?cam = "(make_camera w h)\<lparr>Camera.position := Float3 19.9 0 0\<rparr>"
  let ?cam' = "snd (look_update st ?cam mouseX mouseY)"
  have y: "yaw ?cam' = 0" using assms by (auto simp: look_update_yaw make_camera_fields)
  have p: "pitch ?cam' = 0" using assms by (auto simp: look_update_pitch make_camera_fields)
  have f: "camera_forward ?cam' = Float3 0 0 (- 1)" using y p by (rule camera_forward_level)
  show ?thesis
    unfolding update_camera_position Let_def f camera_right_level move_direction_only_D
    by (simp add: simd_length_def simd_dot_def simd_normalize_def scale3_def add3_def
        simd_clamp_def clampf_def make_camera_fields)
qed

lemma camera_forward_unturned:
  assumes "yaw cam = 0"
  shows "camera_forward cam = Float3 0 (sin (pitch cam)) (- cos (pitch cam))"
proof -
  have "sin (pitch cam) * sin (pitch cam) + cos (pitch cam) * cos (pitch cam) = 1"
    using sin_cos_squared_add [of "pitch cam"] by (simp add: power2_eq_square)
  then have "simd_length (Float3 0 (sin (pitch cam)) (- cos (pitch cam))) = 1"
    by (simp add: simd_length_def simd_dot_def)
  then show ?thesis
    using assms by (simp add: camera_forward_def cosf_def sinf_def simd_normalize_def scale3_def Let_def)
qed

lemma camera_right_flipped:
  assumes "c < 0"
  shows "camera_right (Float3 0 s (- c)) = Float3 (- 1) 0 0"
proof -
  have x: "simd_cross (Float3 0 s (- c)) (Float3 0 1 0) = Float3 c 0 0"
    by (simp add: simd_cross_def)
  have "simd_length (Float3 c 0 0) = \<bar>c\<bar>"
    by (simp add: simd_length_def simd_dot_def)
  then have l: "simd_length (Float3 c 0 0) = - c" using assms by simp
  show ?thesis
    unfolding camera_right_def x simd_normalize_def l using assms by (simp add: scale3_def)
qed

text \<open>
  Claim C6 as stated fails in its example: where the camera ends depends on the pointer
  position that the previous call left in the statics. After a call with the pointer at
  \<open>(0, 10000)\<close>, the camera of the claim (from \<^verbatim>\<open>make_camera\<close>, at \<open>(19.9, 0, 0)\<close>, yaw and
  pitch \<open>0\<close>), updated with the pointer at \<open>(0, 0)\<close>, only \<^verbatim>\<open>'D'\<close> held and \<open>dt = 10\<close>, is first
  pitched up to the clamp bound, beyond the vertical: its right vector is \<open>(-1, 0, 0)\<close>, and it
  ends with \<open>x = -20\<close>.
\<close>

theorem strafe_after_pointer_move_counterexample:
  "fx (Camera.position (snd (update_camera
        (fst (update_camera initial_statics (make_camera 800 600) 1 (\<lambda>k. False) 0 10000))
        ((make_camera 800 600)\<lparr>Camera.position := Float3 19.9 0 0\<rparr>) 10
        (\<lambda>k. k = of_char CHR ''D'') 0 0))) = - 20"
proof -
  let ?st = "fst (update_camera initial_statics (make_camera 800 600) 1 (\<lambda>k. False) 0 10000)"
  let ?cam = "(make_camera 800 600)\<lparr>Camera.position := Float3 19.9 0 0\<rparr>"
  let ?cam' = "snd (look_update ?st ?cam 0 0)"
  have st: "?st = \<lparr>lastMouseX = 0, lastMouseY = 10000, firstMouse = False\<rparr>"
    by (rule update_camera_statics)
  have y: "yaw ?cam' = 0" unfolding st by (simp add: look_update_yaw make_camera_fields)
  have p: "pitch ?cam' = 1.5708"
    unfolding st by (simp add: look_update_pitch make_camera_fields Let_def)
  have f: "camera_forward ?cam' = Float3 0 (sin 1.5708) (- cos 1.5708)"
    using camera_forward_unturned [OF y] unfolding p .
  have r: "camera_right (Float3 0 (sin 1.5708) (- cos 1.5708)) = Float3 (- 1) 0 0"
    using cos_clamp_negative by (rule camera_right_flipped)
  show ?thesis
    unfolding update_camera_position Let_def f r move_direction_only_D
    by (simp add: simd_length_def simd_dot_def simd_normalize_def scale3_def add3_def
        simd_clamp_def clampf_def make_camera_fields)
qed

text \<open>
  Claim C6, as amended. After every call to \<^verbatim>\<open>update_camera\<close> the camera position lies
  component-wise in \<open>[-20, 20] \<times> [0, 20] \<times> [-20, 20]\<close>. A camera made by \<^verbatim>\<open>make_camera\<close> and
  placed at \<open>(19.9, 0, 0)\<close>, holding only the key \<^verbatim>\<open>'D'\<close> for \<open>dt = 10\<close>, ends with \<open>x\<close>
  exactly \<open>20\<close>, provided the call sees no pointer movement (it is the first call of the
  program, or the pointer is where the previous call left it), so that yaw and pitch stay \<open>0\<close>.
\<close>

theorem position_clamped_to_box:
  "(- 20 \<le> fx (Camera.position (snd (update_camera st cam dt keys mouseX mouseY)))
    \<and> fx (Camera.position (snd (update_camera st cam dt keys mouseX mouseY))) \<le> 20
    \<and> 0 \<le> fy (Camera.position (snd (update_camera st cam dt keys mouseX mouseY)))
    \<and> fy (Camera.position (snd (update_camera st cam dt keys mouseX mouseY))) \<le> 20
    \<and> - 20 \<le> fz (Camera.position (snd (update_camera st cam dt keys mouseX mouseY)))
    \<and> fz (Camera.position (snd (update_camera st cam dt keys mouseX mouseY))) \<le> 20)
   \<and> (firstMouse st' \<or> (lastMouseX st' = mouseX' \<and> lastMouseY st' = mouseY') \<longrightarrow>
        fx (Camera.position (snd (update_camera st'
              ((make_camera w h)\<lparr>Camera.position := Float3 19.9 0 0\<rparr>) 10
              (\<lambda>k. k = of_char CHR ''D'') mouseX' mouseY'))) = 20)"
proof (intro conjI impI)
  assume "firstMouse st' \<or> (lastMouseX st' = mouseX' \<and> lastMouseY st' = mouseY')"
  then show "fx (Camera.position (snd (update_camera st'
              ((make_camera w h)\<lparr>Camera.position := Float3 19.9 0 0\<rparr>) 10
              (\<lambda>k. k = of_char CHR ''D'') mouseX' mouseY'))) = 20"
    using strafe_right_example [of st' mouseX' mouseY' w h] by simp
qed (simp_all add: update_camera_in_box)

theorem position_clamped_to_box_witness:
  "fx (Camera.position (snd (update_camera initial_statics
        ((make_camera 800 600)\<lparr>Camera.position := Float3 19.9 0 0\<rparr>) 10
        (\<lambda>k. k = of_char CHR ''D'') 0 0))) = 20
   \<and> fx (Camera.position (snd (update_camera \<lparr>lastMouseX = 0, lastMouseY = 0, firstMouse = False\<rparr>
        ((make_camera 800 600)\<lparr>Camera.position := Float3 19.9 0 0\<rparr>) 10
        (\<lambda>k. k = of_char CHR ''D'') 0 0))) = 20"
  using position_clamped_to_box [of initial_statics "make_camera 800 600" 1 "\<lambda>k. False" 0 0
      initial_statics 0 0 800 600]
    position_clamped_to_box [of initial_statics "make_camera 800 600" 1 "\<lambda>k. False" 0 0
      "\<lparr>lastMouseX = 0, lastMouseY = 0, firstMouse = False\<rparr>" 0 0 800 600]
  by (simp add: initial_statics_def)

text \<open>
  Claim C10. In \<^verbatim>\<open>update_camera\<close> the move direction is normalised, and the position
  advanced, only when its length exceeds \<open>0.01\<close>: otherwise the new position is the clamped
  old one. When every movement key is held together with its opposite or not at all
  (\<^verbatim>\<open>'W'\<close> with \<^verbatim>\<open>'S'\<close>, \<^verbatim>\<open>'A'\<close> with \<^verbatim>\<open>'D'\<close>, space with \<^verbatim>\<open>'C'\<close> or \<^verbatim>\<open>'X'\<close>), which
  includes no key at all, a camera inside the bounding box keeps exactly its position.
\<close>

theorem no_move_without_direction:
  "(simd_length (move_direction keys
        (camera_forward (snd (update_camera st cam dt keys mouseX mouseY)))
        (camera_right (camera_forward (snd (update_camera st cam dt keys mouseX mouseY)))))
      \<le> 0.01 \<longrightarrow>
      Camera.position (snd (update_camera st cam dt keys mouseX mouseY)) =
        simd_clamp (Camera.position cam) (Float3 (- 20) 0 (- 20)) (Float3 20 20 20))
   \<and> (key keys CHR ''W'' = key keys CHR ''S'' \<and> key keys CHR ''A'' = key keys CHR ''D''
      \<and> key keys CHR '' '' = (key keys CHR ''C'' \<or> key keys CHR ''X'')
      \<and> - 20 \<le> fx (Camera.position cam) \<and> fx (Camera.position cam) \<le> 20
      \<and> 0 \<le> fy (Camera.position cam) \<and> fy (Camera.position cam) \<le> 20
      \<and> - 20 \<le> fz (Camera.position cam) \<and> fz (Camera.position cam) \<le> 20 \<longrightarrow>
      Camera.position (snd (update_camera st cam dt keys mouseX mouseY)) = Camera.position cam)"
proof (intro conjI impI)
  assume "simd_length (move_direction keys
        (camera_forward (snd (update_camera st cam dt keys mouseX mouseY)))
        (camera_right (camera_forward (snd (update_camera st cam dt keys mouseX mouseY)))))
      \<le> 0.01"
  then show "Camera.position (snd (update_camera st cam dt keys mouseX mouseY)) =
        simd_clamp (Camera.position cam) (Float3 (- 20) 0 (- 20)) (Float3 20 20 20)"
    unfolding camera_forward_update by (simp add: update_camera_position Let_def)
next
  assume a: "key keys CHR ''W'' = key keys CHR ''S'' \<and> key keys CHR ''A'' = key keys CHR ''D''
      \<and> key keys CHR '' '' = (key keys CHR ''C'' \<or> key keys CHR ''X'')
      \<and> - 20 \<le> fx (Camera.position cam) \<and> fx (Camera.position cam) \<le> 20
      \<and> 0 \<le> fy (Camera.position cam) \<and> fy (Camera.position cam) \<le> 20
      \<and> - 20 \<le> fz (Camera.position cam) \<and> fz (Camera.position cam) \<le> 20"
  then have m: "\<And>forward right. move_direction keys forward right = Float3 0 0 0"
    by (intro move_direction_balanced) simp_all
  have c: "simd_clamp (Camera.position cam) (Float3 (- 20) 0 (- 20)) (Float3 20 20 20)
      = Camera.position cam"
    using a by (intro simd_clamp_id) simp_all
  show "Camera.position (snd (update_camera st cam dt keys mouseX mouseY)) = Camera.position cam"
    unfolding update_camera_position Let_def m
    by (simp add: simd_length_def simd_dot_def c)
qed

theorem no_move_without_direction_witness:
  "Camera.position (snd (update_camera initial_statics (make_camera 800 600) 1
      (\<lambda>k. k = of_char CHR ''W'' \<or> k = of_char CHR ''S'') 0 0)) = Float3 0 0 3
   \<and> Camera.position (snd (update_camera initial_statics (make_camera 800 600) 1
      (\<lambda>k. False) 0 0)) = Float3 0 0 3"
proof -
  have l: "simd_length (move_direction (\<lambda>k. False) forward right) \<le> 0.01" for forward right
    by (simp add: move_direction_def key_def Let_def simd_length_def simd_dot_def)
  have c: "simd_clamp (Float3 0 0 3) (Float3 (- 20) 0 (- 20)) (Float3 20 20 20) = Float3 0 0 3"
    by (simp add: simd_clamp_def clampf_def)
  show ?thesis
    using no_move_without_direction [of "\<lambda>k. k = of_char CHR ''W'' \<or> k = of_char CHR ''S''"
        initial_statics "make_camera 800 600" 1 0 0]
      no_move_without_direction [of "\<lambda>k. False" initial_statics "make_camera 800 600" 1 0 0]
      l c
    by (simp add: key_def make_camera_fields)
qed

section \<open>The passes of the mesh builder\<close>

subsection \<open>Indices as machine integers\<close>

lemma signed_take_bit_31_self:
  "- 2147483648 \<le> k \<Longrightarrow> k < 2147483648 \<Longrightarrow> signed_take_bit 31 (k::int) = k"
  by (rule signed_take_bit_int_eq_self) simp_all

lemma sint_word_of_int32:
  "- 2147483648 \<le> k \<Longrightarrow> k < 2147483648 \<Longrightarrow> sint (word_of_int k :: int32) = k"
  by (simp add: sint_sbintrunc' signed_take_bit_31_self)

lemma sint_of_nat32: "k < 2147483648 \<Longrightarrow> sint (of_nat k :: int32) = int k"
  using sint_word_of_int32 [of "int k"] by simp

lemma of_nat_nat_sint: "0 \<le> sint (w::int32) \<Longrightarrow> of_nat (nat (sint w)) = w"
  by simp

lemma sint_bounds32: "- 2147483648 \<le> sint (w::int32) \<and> sint w < 2147483648"
  using sint_ge [of w] sint_lt [of w] by simp

lemma unat_of_nat32: "k < 4294967296 \<Longrightarrow> unat (of_nat k :: int32) = k"
  by (simp add: unat_of_nat)

lemma int_to_uint32_id: "int_to_uint32 i = i"
  by (simp add: int_to_uint32_def)

lemma sless_of_nat32:
  "a < 2147483648 \<Longrightarrow> b < 2147483648 \<Longrightarrow> ((of_nat a :: int32) <s of_nat b) = (a < b)"
  by (simp add: word_sless_alt sint_of_nat32)

lemma loop_range_of_nat: "n < 2147483648 \<Longrightarrow> loop_range (of_nat n) = map of_nat [0..<n]"
  by (simp add: loop_range_def sint_of_nat32)

lemma of_nat_pred32: "0 < n \<Longrightarrow> (of_nat n :: int32) - 1 = of_nat (n - 1)"
  by (cases n) simp_all

lemma vec_at_of_nat:
  "k < length xs \<Longrightarrow> k < 2147483648 \<Longrightarrow> vec_at xs (of_nat k) = Inr (xs ! k)"
  by (simp add: vec_at_def sint_of_nat32)

lemma vec_update_of_nat:
  "k < length xs \<Longrightarrow> k < 2147483648 \<Longrightarrow> vec_update xs (of_nat k) f = Inr (xs[k := f (xs ! k)])"
  by (simp add: vec_update_def sint_of_nat32)

lemma grid_index_less:
  assumes "z < d" and "x < w"
  shows "z * w + x < w * (d::nat)"
proof -
  have "z * w + x < z * w + w" using assms by simp
  also have "\<dots> = Suc z * w" by simp
  also have "\<dots> \<le> d * w" using assms by (intro mult_le_mono1) simp
  finally show ?thesis by (simp add: mult.commute)
qed

subsection \<open>Loops\<close>

lemma for_each_map_apply: "for_each (map f xs) body s = for_each xs (\<lambda>a. body (f a)) s"
  by (induction xs arbitrary: s) (simp_all split: sum.splits)

lemma for_each_map: "for_each (map f xs) body = for_each xs (\<lambda>a. body (f a))"
  by (rule ext) (rule for_each_map_apply)

lemma for_each_push:
  assumes "\<And>a s. a \<in> set xs \<Longrightarrow> body a s = Inr (s @ g a)"
  shows "for_each xs body s = Inr (s @ concat (map g xs))"
  using assms by (induction xs arbitrary: s) simp_all

lemma for_each_establish:
  assumes "I s"
    and "\<And>a s. a \<in> set xs \<Longrightarrow> I s \<Longrightarrow>
           \<exists>s'. body a s = Inr s' \<and> I s' \<and> (\<forall>j\<in>K a. P j s') \<and> (\<forall>j. P j s \<longrightarrow> P j s')"
  shows "\<exists>s'. for_each xs body s = Inr s' \<and> I s' \<and> (\<forall>a\<in>set xs. \<forall>j\<in>K a. P j s')
           \<and> (\<forall>j. P j s \<longrightarrow> P j s')"
  using assms
proof (induction xs arbitrary: s)
  case Nil
  then show ?case by simp
next
  case (Cons a xs)
  from Cons.prems obtain s1 where s1: "body a s = Inr s1" "I s1" "\<forall>j\<in>K a. P j s1"
      "\<forall>j. P j s \<longrightarrow> P j s1"
    by (meson list.set_intros(1))
  have "\<exists>s'. for_each xs body s1 = Inr s' \<and> I s' \<and> (\<forall>a\<in>set xs. \<forall>j\<in>K a. P j s')
           \<and> (\<forall>j. P j s1 \<longrightarrow> P j s')"
    using s1(2) Cons.prems(2) by (intro Cons.IH) simp_all
  then obtain s' where s': "for_each xs body s1 = Inr s'" "I s'"
      "\<forall>a\<in>set xs. \<forall>j\<in>K a. P j s'" "\<forall>j. P j s1 \<longrightarrow> P j s'"
    by blast
  have "for_each (a # xs) body s = Inr s'" using s1(1) s'(1) by simp
  moreover have "\<forall>b\<in>set (a # xs). \<forall>j\<in>K b. P j s'" using s1(3) s'(3,4) by auto
  moreover have "\<forall>j. P j s \<longrightarrow> P j s'" using s1(4) s'(4) by blast
  ultimately show ?case using s'(2) by blast
qed

lemma for_each_fails:
  assumes "a \<in> set xs" and "I s"
    and "\<And>s. I s \<Longrightarrow> isl (body a s)"
    and "\<And>b s s'. b \<in> set xs \<Longrightarrow> I s \<Longrightarrow> body b s = Inr s' \<Longrightarrow> I s'"
  shows "isl (for_each xs body s)"
  using assms
proof (induction xs arbitrary: s)
  case Nil
  then show ?case by simp
next
  case (Cons b xs)
  show ?case
  proof (cases "body b s")
    case (Inl e)
    then show ?thesis by simp
  next
    case (Inr s1)
    then have i1: "I s1" using Cons.prems(2,4) by (meson list.set_intros(1))
    have "a \<noteq> b" using Inr Cons.prems(2,3) by (metis sum.disc(2))
    then have "a \<in> set xs" using Cons.prems(1) by simp
    then have "isl (for_each xs body s1)"
      using i1 Cons.prems(3,4) by (intro Cons.IH) (simp_all, blast)
    then show ?thesis using Inr by simp
  qed
qed

lemma sless_zero_of_nat32: "x < 2147483648 \<Longrightarrow> ((0::int32) <s of_nat x) = (0 < x)"
  using sless_of_nat32 [of 0 x] by (simp only: of_nat_0) simp

lemma sless_of_nat_pred32:
  assumes "x < 2147483648" and "0 < w" and "w < 2147483648"
  shows "((of_nat x :: int32) <s of_nat w - 1) = (x < w - 1)"
proof -
  have "(of_nat w :: int32) - 1 = of_nat (w - 1)" using assms(2) by (rule of_nat_pred32)
  moreover have "w - 1 < 2147483648" using assms(3) by simp
  ultimately show ?thesis using assms(1) by (simp only: sless_of_nat32)
qed

lemma idx_left:
  "(of_nat z :: int32) * of_nat w + (if 0 < x then of_nat x - 1 else of_nat x)
      = of_nat (z * w + (if 0 < x then x - 1 else x))"
proof (cases "0 < x")
  case True
  then have "(of_nat x :: int32) - 1 = of_nat (x - 1)" by (rule of_nat_pred32)
  then show ?thesis using True by (simp only: if_True of_nat_add of_nat_mult)
next
  case False
  then show ?thesis by (simp only: if_False of_nat_add of_nat_mult)
qed

lemma idx_right:
  "(of_nat z :: int32) * of_nat w + (if x < w - 1 then of_nat x + 1 else of_nat x)
      = of_nat (z * w + (if x < w - 1 then x + 1 else x))"
  by (cases "x < w - 1") (simp_all only: if_True if_False of_nat_add of_nat_mult of_nat_1)

lemma idx_down:
  "(if 0 < z then (of_nat z :: int32) - 1 else of_nat z) * of_nat w + of_nat x
      = of_nat ((if 0 < z then z - 1 else z) * w + x)"
proof (cases "0 < z")
  case True
  then have "(of_nat z :: int32) - 1 = of_nat (z - 1)" by (rule of_nat_pred32)
  then show ?thesis using True by (simp only: if_True of_nat_add of_nat_mult)
next
  case False
  then show ?thesis by (simp only: if_False of_nat_add of_nat_mult)
qed

lemma idx_up:
  "(if z < d - 1 then (of_nat z :: int32) + 1 else of_nat z) * of_nat w + of_nat x
      = of_nat ((if z < d - 1 then z + 1 else z) * w + x)"
  by (cases "z < d - 1") (simp_all only: if_True if_False of_nat_add of_nat_mult of_nat_1)

lemma idx_centre: "(of_nat z :: int32) * of_nat w + of_nat x = of_nat (z * w + x)"
  by (simp only: of_nat_add of_nat_mult)

subsection \<open>The normal pass\<close>

lemma set_normal_nat:
  assumes "0 < w" and "0 < d" and "w * d \<le> 2147483648" and "z < d" and "x < w"
    and "length vs = w * d" and "w < 2147483648" and "d < 2147483648"
  shows "set_normal (of_nat w) (of_nat d) (of_nat z) (of_nat x) vs =
           Inr (vs[z * w + x := (vs ! (z * w + x))\<lparr>normal := edge_clamped_normal vs w d x z\<rparr>])"
proof -
  have small: "x < 2147483648" "z < 2147483648"
    using assms(4,5,7,8) by simp_all
  have idx: "z' * w + x' < length vs \<and> z' * w + x' < 2147483648" if "z' < d" "x' < w" for z' x'
    using grid_index_less [OF that] assms(3,6) by simp
  have c1: "((0::int32) <s of_nat x) = (0 < x)"
    using small(1) by (rule sless_zero_of_nat32)
  have c2: "((of_nat x :: int32) <s of_nat w - 1) = (x < w - 1)"
    using small(1) assms(1,7) by (rule sless_of_nat_pred32)
  have c3: "((0::int32) <s of_nat z) = (0 < z)"
    using small(2) by (rule sless_zero_of_nat32)
  have c4: "((of_nat z :: int32) <s of_nat d - 1) = (z < d - 1)"
    using small(2) assms(2,8) by (rule sless_of_nat_pred32)
  have xl: "(if 0 < x then x - 1 else x) < w" using assms(5) by (simp add: less_imp_diff_less)
  have xr: "(if x < w - 1 then x + 1 else x) < w" using assms(5) by (simp add: less_diff_conv)
  have zd: "(if 0 < z then z - 1 else z) < d" using assms(4) by (simp add: less_imp_diff_less)
  have zu: "(if z < d - 1 then z + 1 else z) < d" using assms(4) by (simp add: less_diff_conv)
  have aL: "vec_at vs (of_nat (z * w + (if 0 < x then x - 1 else x)))
      = Inr (vs ! (z * w + (if 0 < x then x - 1 else x)))"
    using idx [OF assms(4) xl] by (intro vec_at_of_nat) simp_all
  have aR: "vec_at vs (of_nat (z * w + (if x < w - 1 then x + 1 else x)))
      = Inr (vs ! (z * w + (if x < w - 1 then x + 1 else x)))"
    using idx [OF assms(4) xr] by (intro vec_at_of_nat) simp_all
  have aD: "vec_at vs (of_nat ((if 0 < z then z - 1 else z) * w + x))
      = Inr (vs ! ((if 0 < z then z - 1 else z) * w + x))"
    using idx [OF zd assms(5)] by (intro vec_at_of_nat) simp_all
  have aU: "vec_at vs (of_nat ((if z < d - 1 then z + 1 else z) * w + x))
      = Inr (vs ! ((if z < d - 1 then z + 1 else z) * w + x))"
    using idx [OF zu assms(5)] by (intro vec_at_of_nat) simp_all
  have uC: "vec_update vs (of_nat (z * w + x)) f = Inr (vs[z * w + x := f (vs ! (z * w + x))])" for f
    using idx [OF assms(4,5)] by (intro vec_update_of_nat) simp_all
  show ?thesis
    unfolding set_normal_def
    by (simp only: c1 c2 c3 c4 idx_left idx_right idx_down idx_up idx_centre aL aR aD aU uC
        sum.case Let_def edge_clamped_normal_def grid_height_def)
qed

lemma edge_clamped_normal_cong:
  assumes "map Vertex.position s = map Vertex.position vs" and "length vs = w * d"
    and "z < d" and "x < w"
  shows "edge_clamped_normal s w d x z = edge_clamped_normal vs w d x z"
proof -
  have len: "length s = w * d" using assms(1,2) by (metis length_map)
  have p: "Vertex.position (s ! (z' * w + x')) = Vertex.position (vs ! (z' * w + x'))"
    if "z' < d" "x' < w" for z' x'
  proof -
    have i: "z' * w + x' < w * d" using that by (rule grid_index_less)
    have "Vertex.position (s ! (z' * w + x')) = map Vertex.position s ! (z' * w + x')"
      using i len by simp
    also have "\<dots> = map Vertex.position vs ! (z' * w + x')" by (simp only: assms(1))
    also have "\<dots> = Vertex.position (vs ! (z' * w + x'))" using i assms(2) by simp
    finally show ?thesis .
  qed
  have "grid_height s w (if 0 < x then x - 1 else x) z = grid_height vs w (if 0 < x then x - 1 else x) z"
    unfolding grid_height_def using assms(3,4) by (intro arg_cong [where f = fy] p) auto
  moreover have "grid_height s w (if x < w - 1 then x + 1 else x) z
      = grid_height vs w (if x < w - 1 then x + 1 else x) z"
    unfolding grid_height_def using assms(3,4) by (intro arg_cong [where f = fy] p) auto
  moreover have "grid_height s w x (if 0 < z then z - 1 else z)
      = grid_height vs w x (if 0 < z then z - 1 else z)"
    unfolding grid_height_def using assms(3,4) by (intro arg_cong [where f = fy] p) auto
  moreover have "grid_height s w x (if z < d - 1 then z + 1 else z)
      = grid_height vs w x (if z < d - 1 then z + 1 else z)"
    unfolding grid_height_def using assms(3,4) by (intro arg_cong [where f = fy] p) auto
  ultimately show ?thesis by (simp only: edge_clamped_normal_def)
qed


lemma map_position_update:
  assumes "k < length s"
  shows "map Vertex.position (s[k := (s ! k)\<lparr>normal := n\<rparr>]) = map Vertex.position s"
proof -
  have "map Vertex.position (s[k := (s ! k)\<lparr>normal := n\<rparr>])
      = (map Vertex.position s)[k := Vertex.position ((s ! k)\<lparr>normal := n\<rparr>)]"
    by (rule map_update)
  also have "\<dots> = (map Vertex.position s)[k := map Vertex.position s ! k]"
    using assms by simp
  also have "\<dots> = map Vertex.position s" by (rule list_update_id)
  finally show ?thesis .
qed

lemma grid_index_div_mod:
  assumes "x < (w::nat)"
  shows "(z * w + x) div w = z" and "(z * w + x) mod w = x"
  using assms by simp_all

lemma set_normal_step:
  assumes "0 < w" and "0 < d" and "w * d \<le> 2147483648" and "w < 2147483648"
    and "d < 2147483648" and "length vs = w * d" and "z < d" and "x < w"
    and "positions_kept vs s"
  shows "\<exists>s'. set_normal (of_nat w) (of_nat d) (of_nat z) (of_nat x) s = Inr s'
           \<and> positions_kept vs s' \<and> (\<forall>j\<in>{z * w + x}. normals_set vs w d j s')
           \<and> (\<forall>j. normals_set vs w d j s \<longrightarrow> normals_set vs w d j s')"
proof -
  let ?k = "z * w + x"
  let ?s' = "s[?k := (s ! ?k)\<lparr>normal := edge_clamped_normal vs w d x z\<rparr>]"
  have len: "length s = w * d" and pos: "map Vertex.position s = map Vertex.position vs"
    using assms(6,9) by (simp_all add: positions_kept_def)
  have k: "?k < w * d" using assms(7,8) by (rule grid_index_less)
  have "set_normal (of_nat w) (of_nat d) (of_nat z) (of_nat x) s =
      Inr (s[?k := (s ! ?k)\<lparr>normal := edge_clamped_normal s w d x z\<rparr>])"
    using assms(1,2,3) assms(7,8) len assms(4,5) by (rule set_normal_nat)
  moreover have "edge_clamped_normal s w d x z = edge_clamped_normal vs w d x z"
    using pos assms(6,7,8) by (rule edge_clamped_normal_cong)
  ultimately have r: "set_normal (of_nat w) (of_nat d) (of_nat z) (of_nat x) s = Inr ?s'"
    by simp
  have i: "positions_kept vs ?s'"
    using k len pos assms(6) by (simp add: positions_kept_def map_position_update)
  have e: "normals_set vs w d ?k ?s'"
    using k len assms(8) by (simp add: normals_set_def)
  have p: "normals_set vs w d j ?s'" if "normals_set vs w d j s" for j
  proof (cases "j = ?k")
    case True
    then show ?thesis using e by simp
  next
    case False
    then show ?thesis using that by (simp add: normals_set_def)
  qed
  from r i e p show ?thesis by blast
qed

lemma normal_row:
  assumes "0 < w" and "0 < d" and "w * d \<le> 2147483648" and "w < 2147483648"
    and "d < 2147483648" and "length vs = w * d" and "z < d"
    and "positions_kept vs s"
  shows "\<exists>s'. for_each [0..<w] (\<lambda>x. set_normal (of_nat w) (of_nat d) (of_nat z) (of_nat x)) s = Inr s'
           \<and> positions_kept vs s'
           \<and> (\<forall>x\<in>set [0..<w]. \<forall>j\<in>{z * w + x}. normals_set vs w d j s')
           \<and> (\<forall>j. normals_set vs w d j s \<longrightarrow> normals_set vs w d j s')"
proof (rule for_each_establish [where I = "positions_kept vs"])
  show "positions_kept vs s" by (rule assms(8))
next
  fix x t
  assume "x \<in> set [0..<w]" and "positions_kept vs t"
  then show "\<exists>s'. set_normal (of_nat w) (of_nat d) (of_nat z) (of_nat x) t = Inr s'
           \<and> positions_kept vs s' \<and> (\<forall>j\<in>{z * w + x}. normals_set vs w d j s')
           \<and> (\<forall>j. normals_set vs w d j t \<longrightarrow> normals_set vs w d j s')"
    using assms(1-7) by (intro set_normal_step) simp_all
qed

lemma normal_pass:
  assumes "0 < w" and "0 < d" and "w * d \<le> 2147483648" and "w < 2147483648"
    and "d < 2147483648" and "length vs = w * d"
  shows "\<exists>vs'. for_each (loop_range (of_nat d))
             (\<lambda>z. for_each (loop_range (of_nat w)) (set_normal (of_nat w) (of_nat d) z)) vs = Inr vs'
           \<and> length vs' = w * d
           \<and> map Vertex.position vs' = map Vertex.position vs
           \<and> (\<forall>z<d. \<forall>x<w. normal (vs' ! (z * w + x)) = edge_clamped_normal vs w d x z)"
proof -
  let ?row = "\<lambda>z. for_each [0..<w] (\<lambda>x. set_normal (of_nat w) (of_nat d) (of_nat z) (of_nat x))"
  have loops: "for_each (loop_range (of_nat d))
             (\<lambda>z. for_each (loop_range (of_nat w)) (set_normal (of_nat w) (of_nat d) z)) vs
      = for_each [0..<d] ?row vs"
    using assms(4,5) by (simp add: loop_range_of_nat for_each_map)
  have "\<exists>s'. for_each [0..<d] ?row vs = Inr s' \<and> positions_kept vs s'
      \<and> (\<forall>z\<in>set [0..<d]. \<forall>j\<in>{z * w + x | x. x < w}. normals_set vs w d j s')
      \<and> (\<forall>j. normals_set vs w d j vs \<longrightarrow> normals_set vs w d j s')"
  proof (rule for_each_establish [where I = "positions_kept vs"])
    show "positions_kept vs vs" by (simp add: positions_kept_def)
  next
    fix z t
    assume z: "z \<in> set [0..<d]" and t: "positions_kept vs t"
    then have "z < d" by simp
    with assms t have "\<exists>s'. ?row z t = Inr s' \<and> positions_kept vs s'
           \<and> (\<forall>x\<in>set [0..<w]. \<forall>j\<in>{z * w + x}. normals_set vs w d j s')
           \<and> (\<forall>j. normals_set vs w d j t \<longrightarrow> normals_set vs w d j s')"
      by (intro normal_row)
    then obtain s' where s': "?row z t = Inr s'" "positions_kept vs s'"
        "\<forall>x\<in>set [0..<w]. \<forall>j\<in>{z * w + x}. normals_set vs w d j s'"
        "\<forall>j. normals_set vs w d j t \<longrightarrow> normals_set vs w d j s'"
      by blast
    from s'(3) have "\<forall>j\<in>{z * w + x | x. x < w}. normals_set vs w d j s'" by auto
    with s'(1,2,4) show "\<exists>s'. ?row z t = Inr s' \<and> positions_kept vs s'
           \<and> (\<forall>j\<in>{z * w + x | x. x < w}. normals_set vs w d j s')
           \<and> (\<forall>j. normals_set vs w d j t \<longrightarrow> normals_set vs w d j s')"
      by blast
  qed
  then obtain vs' where vs': "for_each [0..<d] ?row vs = Inr vs'" "positions_kept vs vs'"
      "\<forall>z\<in>set [0..<d]. \<forall>j\<in>{z * w + x | x. x < w}. normals_set vs w d j vs'"
    by blast
  have "normal (vs' ! (z * w + x)) = edge_clamped_normal vs w d x z" if "z < d" "x < w" for z x
  proof -
    have "normals_set vs w d (z * w + x) vs'" using vs'(3) that by auto
    then show ?thesis using that(2) by (simp add: normals_set_def)
  qed
  then show ?thesis
    using vs'(1,2) loops assms(6) by (simp add: positions_kept_def)
qed

subsection \<open>The vertex pass\<close>

lemma int_to_float_of_nat: "k < 2147483648 \<Longrightarrow> int_to_float (of_nat k) = real k"
  by (simp add: int_to_float_def sint_of_nat32 del: of_int_sint)

lemma grid_noise_small:
  assumes "x < (w::nat)"
  shows "\<bar>real x / real w * TERRAIN_SCALE * 16\<bar> \<le> 108 * 10 ^ 36"
proof -
  define q where "q = real x / real w"
  have "0 \<le> q" by (simp add: q_def)
  moreover have "q \<le> 1" using assms by (simp add: q_def)
  ultimately have "\<bar>q * 5 * 16\<bar> \<le> 108 * 10 ^ 36" by auto
  then show ?thesis by (simp only: TERRAIN_SCALE_def q_def)
qed

lemma grid_noise_defined:
  assumes "x < (w::nat)" and "z < (d::nat)"
  shows "fractal_noise cv (real x / real w * TERRAIN_SCALE) (real z / real d * TERRAIN_SCALE)
     = Inr (projr (fractal_noise cv (real x / real w * TERRAIN_SCALE) (real z / real d * TERRAIN_SCALE)))"
  using fractal_noise_defined [OF grid_noise_small [OF assms(1)] grid_noise_small [OF assms(2)],
      of cv]
  by auto

lemma push_vertex_nat:
  assumes "w < 2147483648" and "d < 2147483648" and "x < w" and "z < d"
  shows "push_vertex cv (of_nat w) (of_nat d) (of_nat z) (of_nat x) vs = Inr (vs @ [grid_vertex cv w d x z])"
proof -
  have c: "int_to_float (of_nat w) = real w" "int_to_float (of_nat d) = real d"
      "int_to_float (of_nat x) = real x" "int_to_float (of_nat z) = real z"
    using assms by (simp_all add: int_to_float_of_nat)
  show ?thesis
    unfolding push_vertex_def c
    by (subst grid_noise_defined [OF assms(3,4)]) (simp add: grid_vertex_def Let_def)
qed

lemma concat_singletons: "concat (map (\<lambda>x. [f x]) xs) = map f xs"
  by (induction xs) simp_all

lemma vertex_pass:
  assumes "w < 2147483648" and "d < 2147483648"
  shows "for_each (loop_range (of_nat d))
           (\<lambda>z. for_each (loop_range (of_nat w)) (push_vertex cv (of_nat w) (of_nat d) z)) []
         = Inr (grid_vertices cv w d)"
proof -
  have row: "for_each [0..<w] (\<lambda>x. push_vertex cv (of_nat w) (of_nat d) (of_nat z) (of_nat x)) s
      = Inr (s @ map (\<lambda>x. grid_vertex cv w d x z) [0..<w])" if "z < d" for z s
  proof -
    have "for_each [0..<w] (\<lambda>x. push_vertex cv (of_nat w) (of_nat d) (of_nat z) (of_nat x)) s
        = Inr (s @ concat (map (\<lambda>x. [grid_vertex cv w d x z]) [0..<w]))"
      using assms that by (intro for_each_push push_vertex_nat) simp_all
    then show ?thesis by (simp only: concat_singletons)
  qed
  have "for_each [0..<d]
          (\<lambda>z. for_each [0..<w] (\<lambda>x. push_vertex cv (of_nat w) (of_nat d) (of_nat z) (of_nat x))) []
      = Inr ([] @ concat (map (\<lambda>z. map (\<lambda>x. grid_vertex cv w d x z) [0..<w]) [0..<d]))"
    by (rule for_each_push) (simp add: row)
  then show ?thesis
    using assms by (simp add: loop_range_of_nat for_each_map grid_vertices_def)
qed

lemma concat_rows:
  "length (concat (map (\<lambda>z. map (f z) [0..<w]) [0..<d])) = d * w
   \<and> (\<forall>z<d. \<forall>x<w. concat (map (\<lambda>z. map (f z) [0..<w]) [0..<d]) ! (z * w + x) = f z x)"
proof (induction d)
  case 0
  then show ?case by simp
next
  case (Suc d)
  let ?rows = "concat (map (\<lambda>z. map (f z) [0..<w]) [0..<d])"
  have len: "length ?rows = d * w" using Suc.IH by simp
  have split: "concat (map (\<lambda>z. map (f z) [0..<w]) [0..<Suc d]) = ?rows @ map (f d) [0..<w]"
    by simp
  have "(?rows @ map (f d) [0..<w]) ! (z * w + x) = f z x" if "z < Suc d" "x < w" for z x
  proof (cases "z < d")
    case True
    then have "z * w + x < d * w" using that(2) grid_index_less [of z d x w] by (simp add: mult.commute)
    then show ?thesis using len True that(2) Suc.IH by (simp add: nth_append)
  next
    case False
    then have "z = d" using that(1) by simp
    then show ?thesis using len that(2) by (simp add: nth_append)
  qed
  then show ?case unfolding split using len by simp
qed

lemma length_grid_vertices: "length (grid_vertices cv w d) = w * d"
  using concat_rows [of "\<lambda>z x. grid_vertex cv w d x z" w d] by (simp add: grid_vertices_def mult.commute)

lemma nth_grid_vertices:
  "z < d \<Longrightarrow> x < w \<Longrightarrow> grid_vertices cv w d ! (z * w + x) = grid_vertex cv w d x z"
  using concat_rows [of "\<lambda>z x. grid_vertex cv w d x z" w d] by (simp add: grid_vertices_def)

subsection \<open>The index pass\<close>

lemma push_quad_nat:
  "push_quad (of_nat w) (of_nat z) (of_nat x) idx = Inr (idx @ map of_nat (quad_indices w x z))"
  unfolding push_quad_def Let_def int_to_uint32_id quad_indices_def
  by (simp only: list.map of_nat_add of_nat_mult of_nat_1)

lemma map_concat_rows:
  "concat (map (\<lambda>z. concat (map (\<lambda>x. map f (g z x)) xs)) zs)
     = map f (concat (map (\<lambda>z. concat (map (g z) xs)) zs))"
  by (induction zs) (simp_all add: map_concat comp_def)

lemma index_pass:
  assumes "0 < w" and "0 < d" and "w < 2147483648" and "d < 2147483648"
  shows "for_each (loop_range (of_nat d - 1))
           (\<lambda>z. for_each (loop_range (of_nat w - 1)) (push_quad (of_nat w) z)) []
         = Inr (map of_nat (grid_indices w d))"
proof -
  have rw: "loop_range ((of_nat w :: int32) - 1) = map of_nat [0..<w - 1]"
  proof -
    have "(of_nat w :: int32) - 1 = of_nat (w - 1)" using assms(1) by (rule of_nat_pred32)
    moreover have "w - 1 < 2147483648" using assms(3) by simp
    ultimately show ?thesis by (simp only: loop_range_of_nat)
  qed
  have rd: "loop_range ((of_nat d :: int32) - 1) = map of_nat [0..<d - 1]"
  proof -
    have "(of_nat d :: int32) - 1 = of_nat (d - 1)" using assms(2) by (rule of_nat_pred32)
    moreover have "d - 1 < 2147483648" using assms(4) by simp
    ultimately show ?thesis by (simp only: loop_range_of_nat)
  qed
  have row: "for_each [0..<w - 1] (\<lambda>x. push_quad (of_nat w) (of_nat z) (of_nat x)) s
      = Inr (s @ concat (map (\<lambda>x. map of_nat (quad_indices w x z)) [0..<w - 1]))" for z s
    by (rule for_each_push) (rule push_quad_nat)
  have "for_each [0..<d - 1]
          (\<lambda>z. for_each [0..<w - 1] (\<lambda>x. push_quad (of_nat w) (of_nat z) (of_nat x))) []
      = Inr ([] @ concat (map (\<lambda>z. concat (map (\<lambda>x. map of_nat (quad_indices w x z)) [0..<w - 1]))
                [0..<d - 1]))"
    by (rule for_each_push) (rule row)
  then show ?thesis
    unfolding rw rd for_each_map grid_indices_def
    by (simp only: append_Nil map_concat_rows)
qed

lemma length_concat_const:
  assumes "\<And>a. a \<in> set xs \<Longrightarrow> length (g a) = c"
  shows "length (concat (map g xs)) = length xs * c"
  using assms by (induction xs) simp_all

lemma length_grid_indices: "length (grid_indices w d) = 2 * (w - 1) * (d - 1) * 3"
proof -
  have row: "length (concat (map (\<lambda>x. quad_indices w x z) [0..<w - 1])) = (w - 1) * 6" for z
    using length_concat_const [of "[0..<w - 1]" "\<lambda>x. quad_indices w x z" 6]
    by (simp add: quad_indices_def)
  have "length (grid_indices w d) = length [0..<d - 1] * ((w - 1) * 6)"
    unfolding grid_indices_def by (rule length_concat_const) (rule row)
  then show ?thesis by simp
qed

lemma grid_indices_less:
  assumes "i \<in> set (grid_indices w d)"
  shows "i < w * d"
proof -
  from assms obtain z x where z: "z < d - 1" and x: "x < w - 1"
    and i: "i \<in> set (quad_indices w x z)"
    by (auto simp: grid_indices_def)
  have a: "Suc z < d" "Suc x < w" using z x by simp_all
  have "Suc z * w + Suc x < w * d" using a by (rule grid_index_less)
  moreover have "i \<le> Suc z * w + Suc x" using i by (auto simp: quad_indices_def)
  ultimately show ?thesis by simp
qed

subsection \<open>The three passes together\<close>

lemma create_landscape_nat:
  assumes "0 < w" and "0 < d" and "w < 2147483648" and "d < 2147483648"
    and "w * d \<le> 2147483648"
  shows "\<exists>m. create_landscape cv (of_nat w) (of_nat d) = Inr m
           \<and> length (vertices m) = w * d
           \<and> map Vertex.position (vertices m) = map Vertex.position (grid_vertices cv w d)
           \<and> (\<forall>z<d. \<forall>x<w. normal (vertices m ! (z * w + x))
                 = edge_clamped_normal (grid_vertices cv w d) w d x z)
           \<and> indices m = map of_nat (grid_indices w d)"
proof -
  have p1: "for_each (loop_range (of_nat d))
             (\<lambda>z. for_each (loop_range (of_nat w)) (push_vertex cv (of_nat w) (of_nat d) z)) []
      = Inr (grid_vertices cv w d)"
    using assms(3,4) by (rule vertex_pass)
  obtain vs' where p2: "for_each (loop_range (of_nat d))
             (\<lambda>z. for_each (loop_range (of_nat w)) (set_normal (of_nat w) (of_nat d) z))
             (grid_vertices cv w d) = Inr vs'"
    and l: "length vs' = w * d"
    and q: "map Vertex.position vs' = map Vertex.position (grid_vertices cv w d)"
    and n: "\<forall>z<d. \<forall>x<w. normal (vs' ! (z * w + x))
                 = edge_clamped_normal (grid_vertices cv w d) w d x z"
    using normal_pass [OF assms(1,2,5,3,4) length_grid_vertices] by blast
  have p3: "for_each (loop_range (of_nat d - 1))
           (\<lambda>z. for_each (loop_range (of_nat w - 1)) (push_quad (of_nat w) z)) []
         = Inr (map of_nat (grid_indices w d))"
    using assms(1,2,3,4) by (rule index_pass)
  have "create_landscape cv (of_nat w) (of_nat d)
      = Inr \<lparr>modelMatrix = matrix_translation 0 0 0, color = Float3 0.3 0.6 0.2,
             vertices = vs', indices = map of_nat (grid_indices w d)\<rparr>"
    unfolding create_landscape_def by (simp only: p1 p2 p3 sum.case)
  then show ?thesis using l q n by simp
qed

lemma vec_at_error: "vec_at xs i = Inl e \<Longrightarrow> e = IndexOutOfBounds"
  by (simp add: vec_at_def split: if_splits)

lemma vec_update_error: "vec_update xs i f = Inl e \<Longrightarrow> e = IndexOutOfBounds"
  by (simp add: vec_update_def split: if_splits)

lemma vec_update_length: "vec_update xs i f = Inr ys \<Longrightarrow> length ys = length xs"
  by (auto simp: vec_update_def split: if_splits)

lemma vec_update_negative: "sint i < 0 \<Longrightarrow> vec_update xs i f = Inl IndexOutOfBounds"
  by (simp add: vec_update_def)

lemma set_normal_error: "set_normal width depth z x s = Inl e \<Longrightarrow> e = IndexOutOfBounds"
  unfolding set_normal_def Let_def
  by (auto split: sum.splits dest: vec_at_error vec_update_error)

lemma set_normal_length: "set_normal width depth z x s = Inr s' \<Longrightarrow> length s' = length s"
  unfolding set_normal_def Let_def
  by (auto split: sum.splits dest: vec_update_length)

lemma set_normal_negative:
  "sint (z * width + x) < 0 \<Longrightarrow> isl (set_normal width depth z x s)"
  unfolding set_normal_def Let_def
  by (auto split: sum.splits simp: vec_update_negative)

lemma for_each_error:
  "for_each xs body s = Inl e \<Longrightarrow> \<exists>a\<in>set xs. \<exists>t. body a t = Inl e"
proof (induction xs arbitrary: s)
  case Nil
  then show ?case by simp
next
  case (Cons a xs)
  show ?case
  proof (cases "body a s")
    case (Inl e')
    then show ?thesis using Cons.prems by auto
  next
    case (Inr s')
    then have "for_each xs body s' = Inl e" using Cons.prems by simp
    then show ?thesis using Cons.IH by auto
  qed
qed

lemma for_each_invariant:
  assumes "for_each xs body s = Inr s'" and "I s"
    and "\<And>a t t'. a \<in> set xs \<Longrightarrow> I t \<Longrightarrow> body a t = Inr t' \<Longrightarrow> I t'"
  shows "I s'"
  using assms
proof (induction xs arbitrary: s)
  case Nil
  then show ?case by simp
next
  case (Cons a xs)
  from Cons.prems(1) obtain s1 where s1: "body a s = Inr s1" "for_each xs body s1 = Inr s'"
    by (auto split: sum.splits)
  have "I s1" using Cons.prems(2,3) s1(1) by (meson list.set_intros(1))
  then show ?case using s1(2) Cons.prems(3) by (intro Cons.IH [of s1]) (simp_all, blast)
qed

lemma sint_index_overflow: "sint (of_nat 2147483648 :: int32) < 0"
  by simp

lemma normal_pass_overflow:
  assumes "0 < w" and "w < 2147483648" and "d < 2147483648" and "2147483648 < w * d"
    and "length vs = w * d"
  shows "isl (for_each (loop_range (of_nat d))
             (\<lambda>z. for_each (loop_range (of_nat w)) (set_normal (of_nat w) (of_nat d) z)) vs)"
proof -
  define z0 where "z0 = 2147483648 div w"
  define x0 where "x0 = 2147483648 mod w"
  let ?body = "\<lambda>z x. set_normal (of_nat w) (of_nat d) (of_nat z) (of_nat x)"
  let ?row = "\<lambda>z. for_each [0..<w] (?body z)"
  have k: "z0 * w + x0 = 2147483648" by (simp add: z0_def x0_def)
  have x0: "x0 < w" using assms(1) by (simp add: x0_def)
  have z0: "z0 < d"
  proof -
    have "2147483648 < d * w" using assms(4) by (simp add: mult.commute)
    then show ?thesis unfolding z0_def using assms(1) by (simp add: div_less_iff_less_mult)
  qed
  have "(of_nat z0 :: int32) * of_nat w + of_nat x0 = of_nat (z0 * w + x0)"
    by (simp only: of_nat_add of_nat_mult)
  then have neg: "sint ((of_nat z0 :: int32) * of_nat w + of_nat x0) < 0"
    unfolding k using sint_index_overflow by simp
  have cell: "isl (?body z0 x0 s)" for s
    using neg by (rule set_normal_negative)
  have keep: "length t' = w * d" if "?body z x t = Inr t'" "length t = w * d" for z x t t'
    using set_normal_length [OF that(1)] that(2) by simp
  have row_keep: "length t' = w * d" if "?row z t = Inr t'" "length t = w * d" for z t t'
    using that by (rule for_each_invariant) (rule keep)
  have row_fails: "isl (?row z0 s)" if "length s = w * d" for s
  proof (rule for_each_fails [where a = x0 and I = "\<lambda>s. length s = w * d"])
    show "x0 \<in> set [0..<w]" using x0 by simp
    show "length s = w * d" by (rule that)
    show "isl (?body z0 x0 t)" for t by (rule cell)
    show "length t' = w * d" if "length t = w * d" "?body z0 b t = Inr t'" for b t t'
      using that(2,1) by (rule keep)
  qed
  have "isl (for_each [0..<d] ?row vs)"
  proof (rule for_each_fails [where a = z0 and I = "\<lambda>s. length s = w * d"])
    show "z0 \<in> set [0..<d]" using z0 by simp
    show "length vs = w * d" by (rule assms(5))
    show "isl (?row z0 t)" if "length t = w * d" for t using that by (rule row_fails)
    show "length t' = w * d" if "length t = w * d" "?row b t = Inr t'" for b t t'
      using that(2,1) by (rule row_keep)
  qed
  then show ?thesis
    using assms(2,3) by (simp only: loop_range_of_nat for_each_map)
qed

lemma create_landscape_overflow:
  assumes "0 < w" and "w < 2147483648" and "d < 2147483648" and "2147483648 < w * d"
  shows "create_landscape cv (of_nat w) (of_nat d) = Inl IndexOutOfBounds"
proof -
  let ?pass = "for_each (loop_range (of_nat d))
             (\<lambda>z. for_each (loop_range (of_nat w)) (set_normal (of_nat w) (of_nat d) z))
             (grid_vertices cv w d)"
  have p1: "for_each (loop_range (of_nat d))
             (\<lambda>z. for_each (loop_range (of_nat w)) (push_vertex cv (of_nat w) (of_nat d) z)) []
      = Inr (grid_vertices cv w d)"
    using assms(2,3) by (rule vertex_pass)
  have "isl ?pass"
    using assms length_grid_vertices by (rule normal_pass_overflow)
  then obtain e where e: "?pass = Inl e" by (cases ?pass) simp_all
  then obtain z t where r: "for_each (loop_range (of_nat w)) (set_normal (of_nat w) (of_nat d) z) t = Inl e"
    using for_each_error [OF e] by blast
  obtain x t' where "set_normal (of_nat w) (of_nat d) z x t' = Inl e"
    using for_each_error [OF r] by blast
  then have "e = IndexOutOfBounds" by (rule set_normal_error)
  then show ?thesis
    unfolding create_landscape_def using e by (simp only: p1 sum.case)
qed

subsection \<open>The mesh of a grid\<close>

lemma grid_dimension:
  assumes "0 < sint (k::int32)"
  shows "0 < nat (sint k)" and "nat (sint k) < 2147483648" and "of_nat (nat (sint k)) = k"
    and "int (nat (sint k)) = sint k"
  using assms sint_bounds32 [of k] by simp_all

lemma grid_size:
  assumes "0 < sint (width::int32)" and "0 < sint (depth::int32)"
  shows "int (nat (sint width) * nat (sint depth)) = sint width * sint depth"
  using assms by simp

lemma create_landscape_defined_iff:
  assumes "0 < sint width" and "0 < sint depth" and "create_landscape cv width depth = Inr m"
  shows "nat (sint width) * nat (sint depth) \<le> 2147483648"
proof (rule ccontr)
  assume "\<not> nat (sint width) * nat (sint depth) \<le> 2147483648"
  then have "2147483648 < nat (sint width) * nat (sint depth)" by simp
  then have "create_landscape cv (of_nat (nat (sint width))) (of_nat (nat (sint depth)))
      = Inl IndexOutOfBounds"
    using grid_dimension(1,2) [OF assms(1)] grid_dimension(2) [OF assms(2)]
    by (intro create_landscape_overflow)
  then show False
    using assms(3) by (simp only: grid_dimension(3) [OF assms(1)] grid_dimension(3) [OF assms(2)])
      simp
qed

lemma landscape_mesh:
  assumes "0 < sint width" and "0 < sint depth" and "create_landscape cv width depth = Inr m"
  shows "length (vertices m) = nat (sint width) * nat (sint depth)"
    and "map Vertex.position (vertices m)
      = map Vertex.position (grid_vertices cv (nat (sint width)) (nat (sint depth)))"
    and "\<forall>z<nat (sint depth). \<forall>x<nat (sint width).
      normal (vertices m ! (z * nat (sint width) + x))
        = edge_clamped_normal (vertices m) (nat (sint width)) (nat (sint depth)) x z"
    and "indices m = map of_nat (grid_indices (nat (sint width)) (nat (sint depth)))"
proof -
  let ?w = "nat (sint width)" and ?d = "nat (sint depth)"
  have size: "?w * ?d \<le> 2147483648" using assms by (rule create_landscape_defined_iff)
  obtain m' where m': "create_landscape cv (of_nat ?w) (of_nat ?d) = Inr m'"
    and l: "length (vertices m') = ?w * ?d"
    and q: "map Vertex.position (vertices m') = map Vertex.position (grid_vertices cv ?w ?d)"
    and n: "\<forall>z<?d. \<forall>x<?w. normal (vertices m' ! (z * ?w + x))
        = edge_clamped_normal (grid_vertices cv ?w ?d) ?w ?d x z"
    and i: "indices m' = map of_nat (grid_indices ?w ?d)"
    using create_landscape_nat [OF grid_dimension(1) [OF assms(1)] grid_dimension(1) [OF assms(2)]
        grid_dimension(2) [OF assms(1)] grid_dimension(2) [OF assms(2)] size]
    by blast
  have "create_landscape cv width depth = Inr m'"
    using m' by (simp only: grid_dimension(3) [OF assms(1)] grid_dimension(3) [OF assms(2)])
  then have e: "m' = m" using assms(3) by simp
  show "length (vertices m) = ?w * ?d" using l e by simp
  show "map Vertex.position (vertices m) = map Vertex.position (grid_vertices cv ?w ?d)"
    using q e by simp
  show "indices m = map of_nat (grid_indices ?w ?d)" using i e by simp
  show "\<forall>z<?d. \<forall>x<?w. normal (vertices m ! (z * ?w + x))
        = edge_clamped_normal (vertices m) ?w ?d x z"
  proof (intro allI impI)
    fix z x
    assume z: "z < ?d" and x: "x < ?w"
    have "edge_clamped_normal (vertices m') ?w ?d x z
        = edge_clamped_normal (grid_vertices cv ?w ?d) ?w ?d x z"
      using q length_grid_vertices z x by (rule edge_clamped_normal_cong)
    then show "normal (vertices m ! (z * ?w + x)) = edge_clamped_normal (vertices m) ?w ?d x z"
      using n z x e by simp
  qed
qed

lemma simd_length_pre_normal: "0 < simd_length (Float3 a 2 b)"
proof -
  have "0 < a * a + 2 * 2 + b * b"
    using zero_le_square [of a] zero_le_square [of b] by linarith
  then show ?thesis by (simp add: simd_length_def simd_dot_def)
qed

lemma simd_length_normalize:
  assumes "0 < simd_length v"
  shows "simd_length (simd_normalize v) = 1"
proof -
  let ?l = "simd_length v"
  have d: "0 \<le> simd_dot v v"
    by (simp add: simd_dot_def)
  have "simd_dot (simd_normalize v) (simd_normalize v) = simd_dot v v * (1 / ?l) ^ 2"
    by (simp add: simd_normalize_def scale3_def simd_dot_def power2_eq_square algebra_simps)
  then have "simd_length (simd_normalize v) = sqrt (simd_dot v v * (1 / ?l) ^ 2)"
    by (simp only: simd_length_def)
  also have "\<dots> = sqrt (simd_dot v v) * \<bar>1 / ?l\<bar>"
    by (simp only: real_sqrt_mult real_sqrt_abs)
  also have "\<dots> = ?l * (1 / ?l)" using assms by (simp add: simd_length_def)
  also have "\<dots> = 1" using assms by simp
  finally show ?thesis .
qed

lemma edge_clamped_normal_form:
  "\<exists>a b. edge_clamped_normal vs w d x z = simd_normalize (Float3 a 2 b)"
  unfolding edge_clamped_normal_def Let_def by blast

lemma fy_normalize_pre_normal: "0 < fy (simd_normalize (Float3 a 2 b))"
  using simd_length_pre_normal [of a b] by (simp add: simd_normalize_def scale3_def)

text \<open>
  Claim C1 as stated fails: the normal pass computes \<^verbatim>\<open>z * width + x\<close> in \<^verbatim>\<open>int\<close>, and for a
  grid of more than \<open>2 ^ 31\<close> cells, such as \<open>46341 \<times> 46341\<close>, the index leaves the range of
  \<^verbatim>\<open>int\<close> and, wrapped around, is out of the bounds of the vertex list: no mesh is
  returned.
\<close>

theorem landscape_counts_counterexample:
  "create_landscape convert_x86_64 46341 46341 = Inl IndexOutOfBounds
   \<and> create_landscape convert_arm64 46341 46341 = Inl IndexOutOfBounds"
  using create_landscape_overflow [where w = 46341 and d = 46341 and cv = convert_x86_64]
    create_landscape_overflow [where w = 46341 and d = 46341 and cv = convert_arm64]
  by simp

text \<open>
  Claim C1, as amended. For every \<^verbatim>\<open>width > 0\<close> and \<^verbatim>\<open>depth > 0\<close> with
  \<open>width * depth \<le> 2 ^ 31\<close>, \<^verbatim>\<open>create_landscape\<close> returns a mesh with exactly
  \<open>width * depth\<close> vertices and exactly \<open>2 * (width - 1) * (depth - 1) * 3\<close> indices, the index
  count is a multiple of \<open>3\<close>, and every index is strictly less than the vertex count. For
  a larger grid the normal pass indexes the vertex list out of bounds.
\<close>

theorem landscape_counts:
  "(0 < sint width \<and> 0 < sint depth \<and> sint width * sint depth \<le> 2 ^ 31 \<longrightarrow>
      (\<exists>m. create_landscape cv width depth = Inr m
         \<and> int (length (vertices m)) = sint width * sint depth
         \<and> int (length (indices m)) = 2 * (sint width - 1) * (sint depth - 1) * 3
         \<and> 3 dvd length (indices m)
         \<and> (\<forall>i\<in>set (indices m). unat i < length (vertices m))))
   \<and> (0 < sint width \<and> 0 < sint depth \<and> 2 ^ 31 < sint width * sint depth \<longrightarrow>
      create_landscape cv width depth = Inl IndexOutOfBounds)"
proof (intro conjI impI)
  let ?w = "nat (sint width)" and ?d = "nat (sint depth)"
  assume a: "0 < sint width \<and> 0 < sint depth \<and> sint width * sint depth \<le> 2 ^ 31"
  then have pw: "0 < sint width" and pd: "0 < sint depth" by simp_all
  have "int (?w * ?d) \<le> 2147483648" using a by (simp only: grid_size [OF pw pd]) simp
  then have size: "?w * ?d \<le> 2147483648" by linarith
  obtain m' where "create_landscape cv (of_nat ?w) (of_nat ?d) = Inr m'"
    using create_landscape_nat [OF grid_dimension(1) [OF pw] grid_dimension(1) [OF pd]
        grid_dimension(2) [OF pw] grid_dimension(2) [OF pd] size]
    by blast
  then have m: "create_landscape cv width depth = Inr m'"
    by (simp only: grid_dimension(3) [OF pw] grid_dimension(3) [OF pd])
  note mesh = landscape_mesh [OF pw pd m]
  have lv: "int (length (vertices m')) = sint width * sint depth"
    by (simp only: mesh(1) grid_size [OF pw pd])
  have li: "length (indices m') = 2 * (?w - 1) * (?d - 1) * 3"
    by (simp only: mesh(4) length_map length_grid_indices)
  have "int (?w - 1) = sint width - 1" "int (?d - 1) = sint depth - 1"
    using pw pd by simp_all
  then have li': "int (length (indices m')) = 2 * (sint width - 1) * (sint depth - 1) * 3"
    unfolding li by simp
  have dv: "3 dvd length (indices m')" unfolding li by simp
  have ix: "unat i < length (vertices m')" if "i \<in> set (indices m')" for i
  proof -
    from that obtain k where k: "k \<in> set (grid_indices ?w ?d)" and i: "i = of_nat k"
      unfolding mesh(4) by auto
    have kl: "k < ?w * ?d" using k by (rule grid_indices_less)
    then have "k < 4294967296" using size by simp
    then have "unat i = k" unfolding i by (rule unat_of_nat32)
    then show ?thesis using kl by (simp only: mesh(1))
  qed
  show "\<exists>m. create_landscape cv width depth = Inr m
         \<and> int (length (vertices m)) = sint width * sint depth
         \<and> int (length (indices m)) = 2 * (sint width - 1) * (sint depth - 1) * 3
         \<and> 3 dvd length (indices m)
         \<and> (\<forall>i\<in>set (indices m). unat i < length (vertices m))"
    using m lv li' dv ix by blast
next
  let ?w = "nat (sint width)" and ?d = "nat (sint depth)"
  assume a: "0 < sint width \<and> 0 < sint depth \<and> 2 ^ 31 < sint width * sint depth"
  then have pw: "0 < sint width" and pd: "0 < sint depth" by simp_all
  have "2147483648 < int (?w * ?d)" using a by (simp only: grid_size [OF pw pd]) simp
  then have "2147483648 < ?w * ?d" by linarith
  then have "create_landscape cv (of_nat ?w) (of_nat ?d) = Inl IndexOutOfBounds"
    using grid_dimension(1,2) [OF pw] grid_dimension(2) [OF pd]
    by (intro create_landscape_overflow)
  then show "create_landscape cv width depth = Inl IndexOutOfBounds"
    by (simp only: grid_dimension(3) [OF pw] grid_dimension(3) [OF pd])
qed

theorem landscape_counts_witness:
  "(\<exists>m. create_landscape convert_x86_64 50 50 = Inr m
      \<and> int (length (vertices m)) = 2500 \<and> int (length (indices m)) = 14406
      \<and> 3 dvd length (indices m))
   \<and> create_landscape convert_arm64 65536 32769 = Inl IndexOutOfBounds"
proof -
  have "\<exists>m. create_landscape convert_x86_64 50 50 = Inr m
      \<and> int (length (vertices m)) = 2500 \<and> int (length (indices m)) = 14406
      \<and> 3 dvd length (indices m)"
    using landscape_counts [where width = 50 and depth = 50 and cv = convert_x86_64] by auto
  moreover have "create_landscape convert_arm64 65536 32769 = Inl IndexOutOfBounds"
    using landscape_counts [where width = 65536 and depth = 32769 and cv = convert_arm64]
    by simp
  ultimately show ?thesis by blast
qed

text \<open>
  Claim C7. In every mesh built by \<^verbatim>\<open>create_landscape\<close> for \<^verbatim>\<open>width > 0\<close> and
  \<^verbatim>\<open>depth > 0\<close>, the normal of the vertex of every cell \<open>(x, z)\<close> is the normalised vector
  \<open>(heightLeft - heightRight, 2, heightDown - heightUp)\<close> of the heights stored in the mesh
  for the neighbours of the cell, a neighbour beyond the edge of the grid replaced by the
  cell itself; its length is \<open>1\<close>, within the tolerance \<open>0.00001\<close>.
\<close>

theorem normal_is_edge_clamped_gradient:
  "create_landscape cv width depth = Inr m \<and> 0 < sint width \<and> 0 < sint depth
     \<and> x < nat (sint width) \<and> z < nat (sint depth) \<longrightarrow>
   normal (vertices m ! (z * nat (sint width) + x))
     = edge_clamped_normal (vertices m) (nat (sint width)) (nat (sint depth)) x z
   \<and> \<bar>simd_length (normal (vertices m ! (z * nat (sint width) + x))) - 1\<bar> \<le> 0.00001"
proof (intro impI)
  assume a: "create_landscape cv width depth = Inr m \<and> 0 < sint width \<and> 0 < sint depth
     \<and> x < nat (sint width) \<and> z < nat (sint depth)"
  then have m: "create_landscape cv width depth = Inr m" and pw: "0 < sint width"
    and pd: "0 < sint depth" and x: "x < nat (sint width)" and z: "z < nat (sint depth)"
    by simp_all
  have n: "normal (vertices m ! (z * nat (sint width) + x))
      = edge_clamped_normal (vertices m) (nat (sint width)) (nat (sint depth)) x z"
    using landscape_mesh(3) [OF pw pd m] x z by simp
  obtain a b where "edge_clamped_normal (vertices m) (nat (sint width)) (nat (sint depth)) x z
      = simd_normalize (Float3 a 2 b)"
    using edge_clamped_normal_form by blast
  then have "simd_length (normal (vertices m ! (z * nat (sint width) + x))) = 1"
    unfolding n using simd_length_normalize [OF simd_length_pre_normal [of a b]] by simp
  then show "normal (vertices m ! (z * nat (sint width) + x))
     = edge_clamped_normal (vertices m) (nat (sint width)) (nat (sint depth)) x z
   \<and> \<bar>simd_length (normal (vertices m ! (z * nat (sint width) + x))) - 1\<bar> \<le> 0.00001"
    using n by simp
qed

lemma landscape_defined_3_2: "\<exists>m. create_landscape cv 3 2 = Inr m"
  using create_landscape_nat [where w = 3 and d = 2 and cv = cv] by auto

theorem normal_is_edge_clamped_gradient_witness:
  "normal (vertices (projr (create_landscape convert_x86_64 3 2)) ! 4)
     = edge_clamped_normal (vertices (projr (create_landscape convert_x86_64 3 2))) 3 2 1 1
   \<and> \<bar>simd_length (normal (vertices (projr (create_landscape convert_x86_64 3 2)) ! 4)) - 1\<bar>
       \<le> 0.00001"
proof -
  obtain m where m: "create_landscape convert_x86_64 3 2 = Inr m"
    using landscape_defined_3_2 by blast
  then have p: "projr (create_landscape convert_x86_64 3 2) = m" by simp
  have i: "create_landscape convert_x86_64 3 2 = Inr m \<and> 0 < sint (3::int32) \<and> 0 < sint (2::int32)
      \<and> 1 < nat (sint (3::int32)) \<and> 1 < nat (sint (2::int32))"
    using m by simp
  have s: "nat (sint (3::int32)) = 3" "nat (sint (2::int32)) = 2" "1 * 3 + 1 = (4::nat)"
    by simp_all
  note r = normal_is_edge_clamped_gradient [where width = 3 and depth = 2 and m = m and x = 1
      and z = 1 and cv = convert_x86_64, THEN mp, OF i]
  show ?thesis
    unfolding p by (rule r [unfolded s])
qed

text \<open>
  Claim C9. In every mesh built by \<^verbatim>\<open>create_landscape\<close> for \<^verbatim>\<open>width > 0\<close> and
  \<^verbatim>\<open>depth > 0\<close>, every vertex normal is the normalised form of a vector whose \<open>y\<close> component
  is \<open>2\<close>, which is not the zero vector (its length is positive), and the \<open>y\<close> component of
  the normal is strictly positive.
\<close>

theorem normal_points_up:
  "create_landscape cv width depth = Inr m \<and> 0 < sint width \<and> 0 < sint depth \<longrightarrow>
   (\<forall>v\<in>set (vertices m).
      (\<exists>a b. normal v = simd_normalize (Float3 a 2 b) \<and> 0 < simd_length (Float3 a 2 b))
      \<and> 0 < fy (normal v))"
proof (intro impI ballI)
  fix v
  assume a: "create_landscape cv width depth = Inr m \<and> 0 < sint width \<and> 0 < sint depth"
    and v: "v \<in> set (vertices m)"
  let ?w = "nat (sint width)" and ?d = "nat (sint depth)"
  from a have m: "create_landscape cv width depth = Inr m" and pw: "0 < sint width"
    and pd: "0 < sint depth"
    by simp_all
  note mesh = landscape_mesh [OF pw pd m]
  have w: "0 < ?w" using pw by simp
  from v obtain j where j: "j < length (vertices m)" and vj: "v = vertices m ! j"
    by (auto simp: in_set_conv_nth)
  have jl: "j < ?d * ?w" using j by (simp only: mesh(1) mult.commute)
  have z: "j div ?w < ?d" using jl w by (simp add: less_mult_imp_div_less)
  have x: "j mod ?w < ?w" using w by simp
  have "normal (vertices m ! (j div ?w * ?w + j mod ?w))
      = edge_clamped_normal (vertices m) ?w ?d (j mod ?w) (j div ?w)"
    using mesh(3) z x by blast
  then have n: "normal v = edge_clamped_normal (vertices m) ?w ?d (j mod ?w) (j div ?w)"
    unfolding vj by simp
  obtain a b where ab: "normal v = simd_normalize (Float3 a 2 b)"
    unfolding n using edge_clamped_normal_form by blast
  have "0 < simd_length (Float3 a 2 b)" by (rule simd_length_pre_normal)
  moreover have "0 < fy (normal v)" unfolding ab by (rule fy_normalize_pre_normal)
  ultimately show "(\<exists>a b. normal v = simd_normalize (Float3 a 2 b) \<and> 0 < simd_length (Float3 a 2 b))
      \<and> 0 < fy (normal v)"
    using ab by blast
qed

lemma landscape_defined_2_2: "\<exists>m. create_landscape cv 2 2 = Inr m"
  using create_landscape_nat [where w = 2 and d = 2 and cv = cv] by auto

theorem normal_points_up_witness:
  "0 < fy (normal (vertices (projr (create_landscape convert_arm64 2 2)) ! 3))"
proof -
  obtain m where m: "create_landscape convert_arm64 2 2 = Inr m"
    using landscape_defined_2_2 by blast
  then have p: "projr (create_landscape convert_arm64 2 2) = m" by simp
  have "length (vertices m) = 4"
    using landscape_mesh(1) [where width = 2 and depth = 2 and m = m and cv = convert_arm64] m
    by simp
  then have "vertices m ! 3 \<in> set (vertices m)" by simp
  then show ?thesis
    unfolding p
    using normal_points_up [where width = 2 and depth = 2 and m = m and cv = convert_arm64] m
    by simp
qed

lemma landscape_vertex_position:
  assumes "0 < sint width" and "0 < sint depth" and "create_landscape cv width depth = Inr m"
    and "z < nat (sint depth)" and "x < nat (sint width)"
  shows "Vertex.position (vertices m ! (z * nat (sint width) + x))
     = Vertex.position (grid_vertex cv (nat (sint width)) (nat (sint depth)) x z)"
proof -
  let ?w = "nat (sint width)" and ?d = "nat (sint depth)"
  note mesh = landscape_mesh [OF assms(1,2,3)]
  have i: "z * ?w + x < ?w * ?d" using assms(4,5) by (rule grid_index_less)
  have "Vertex.position (vertices m ! (z * ?w + x))
      = map Vertex.position (vertices m) ! (z * ?w + x)"
    using i mesh(1) by simp
  also have "\<dots> = map Vertex.position (grid_vertices cv ?w ?d) ! (z * ?w + x)"
    by (simp only: mesh(2))
  also have "\<dots> = Vertex.position (grid_vertices cv ?w ?d ! (z * ?w + x))"
    using i by (simp add: length_grid_vertices)
  also have "\<dots> = Vertex.position (grid_vertex cv ?w ?d x z)"
    using assms(4,5) by (simp only: nth_grid_vertices)
  finally show ?thesis .
qed

lemma terrain_height_at_grid_vertex:
  assumes "x < 50" and "z < 50"
  shows "get_terrain_height cv (fx (Vertex.position (grid_vertex cv 50 50 x z)))
           (fz (Vertex.position (grid_vertex cv 50 50 x z)))
         = Inr (fy (Vertex.position (grid_vertex cv 50 50 x z)))"
proof -
  let ?n = "projr (fractal_noise cv (real x / real 50 * TERRAIN_SCALE) (real z / real 50 * TERRAIN_SCALE))"
  have n: "fractal_noise cv (real x / real 50 * TERRAIN_SCALE) (real z / real 50 * TERRAIN_SCALE) = Inr ?n"
    using assms by (rule grid_noise_defined)
  have p: "Vertex.position (grid_vertex cv 50 50 x z)
      = Float3 (real x - real 50 / 2) (?n * TERRAIN_HEIGHT) (real z - real 50 / 2)"
    by (simp only: grid_vertex_def Vertex.simps)
  have ax: "(real x - real 50 / 2 + 25) / 50 * 5 = real x / real 50 * TERRAIN_SCALE"
    by (simp add: TERRAIN_SCALE_def)
  have az: "(real z - real 50 / 2 + 25) / 50 * 5 = real z / real 50 * TERRAIN_SCALE"
    by (simp add: TERRAIN_SCALE_def)
  have "get_terrain_height cv (real x - real 50 / 2) (real z - real 50 / 2) = Inr (?n * 12)"
    unfolding get_terrain_height_eq ax az by (subst n) (simp only: sum.case)
  then show ?thesis
    unfolding p by (simp only: float3.sel TERRAIN_HEIGHT_def)
qed

text \<open>
  Claim C3. In the mesh built by \<^verbatim>\<open>create_landscape(50, 50)\<close>, for every grid coordinate
  \<open>(x, z)\<close> with \<open>x < 50\<close> and \<open>z < 50\<close>, \<^verbatim>\<open>get_terrain_height\<close> at the world-space \<open>x\<close> and \<open>z\<close>
  of the vertex at index \<open>z * 50 + x\<close> returns exactly the \<open>y\<close> stored in that vertex.
\<close>

theorem terrain_height_agrees_with_mesh:
  "x < 50 \<and> z < 50 \<longrightarrow>
   (\<exists>m. create_landscape cv 50 50 = Inr m
      \<and> get_terrain_height cv (fx (Vertex.position (vertices m ! (z * 50 + x))))
           (fz (Vertex.position (vertices m ! (z * 50 + x))))
         = Inr (fy (Vertex.position (vertices m ! (z * 50 + x)))))"
proof (intro impI)
  assume a: "x < 50 \<and> z < 50"
  obtain m where m: "create_landscape cv 50 50 = Inr m"
    using create_landscape_nat [where w = 50 and d = 50 and cv = cv] by auto
  have s: "nat (sint (50::int32)) = 50" by simp
  have "Vertex.position (vertices m ! (z * nat (sint (50::int32)) + x))
      = Vertex.position (grid_vertex cv (nat (sint (50::int32))) (nat (sint (50::int32))) x z)"
    using a m by (intro landscape_vertex_position) simp_all
  then have p: "Vertex.position (vertices m ! (z * 50 + x))
      = Vertex.position (grid_vertex cv 50 50 x z)"
    unfolding s .
  have "get_terrain_height cv (fx (Vertex.position (vertices m ! (z * 50 + x))))
           (fz (Vertex.position (vertices m ! (z * 50 + x))))
         = Inr (fy (Vertex.position (vertices m ! (z * 50 + x))))"
    unfolding p using a by (intro terrain_height_at_grid_vertex) simp_all
  then show "\<exists>m. create_landscape cv 50 50 = Inr m
      \<and> get_terrain_height cv (fx (Vertex.position (vertices m ! (z * 50 + x))))
           (fz (Vertex.position (vertices m ! (z * 50 + x))))
         = Inr (fy (Vertex.position (vertices m ! (z * 50 + x))))"
    using m by blast
qed

theorem terrain_height_agrees_with_mesh_witness:
  "\<exists>m. create_landscape convert_x86_64 50 50 = Inr m
      \<and> get_terrain_height convert_x86_64 (fx (Vertex.position (vertices m ! 1249)))
           (fz (Vertex.position (vertices m ! 1249)))
         = Inr (fy (Vertex.position (vertices m ! 1249)))"
  using terrain_height_agrees_with_mesh [where x = 49 and z = 24 and cv = convert_x86_64]
  by simp

end
